theory Spec2Isabelle
  imports Main
begin

section \<open>Values shared by the models\<close>

text \<open>
  The repository is a set of Mongoose schemas with their instance methods, statics and
  save hooks. A document is a record; a field is named as in the schema, prefixed by
  the schema it belongs to (\<open>item_total\<close>, \<open>cart_total\<close>, \<open>order_total\<close>) because
  several schemas share field names. An optional field (one that may be \<open>null\<close> or
  absent) is an \<open>option\<close>.

  An \<open>ObjectId\<close> is an opaque identifier compared through its \<open>toString()\<close>, which is
  injective: the model compares identifiers with \<open>=\<close>. A \<open>Number\<close> field holds an
  integer here (quantities, amounts in minor currency units), on which the arithmetic
  of the methods is exact; rounding of binary fractions is outside the model. A
  \<open>Date\<close> is its time value in milliseconds.
\<close>

type_synonym object_id = nat
type_synonym date = int

section \<open>Cart\<close>

record variant =
  variant_name :: "string option"
  variant_option :: "string option"

record cart_item =
  item_id :: object_id
  item_product :: object_id
  item_name :: string
  item_sku :: "string option"
  item_quantity :: int
  item_price :: int
  item_total :: int
  item_variant :: "variant option"
  item_image :: "string option"
  item_available :: bool
  item_maxQuantity :: int

text \<open>The fields of a Product document that \<open>addItem\<close> reads.\<close>

record product =
  product_id :: object_id
  product_name :: string
  product_sku :: "string option"
  product_price :: int
  product_primaryImage :: "string option"
  product_maxOrderQuantity :: "int option"

record discount =
  discount_code :: "string option"
  discount_amount :: int
  discount_type :: string
  discount_valid :: bool

text \<open>
  The \<open>sessionId\<close> of a stored cart: the path is absent, or it holds \<open>null\<close>, or it
  holds a string.
\<close>

datatype session_id = NoSessionId | NullSessionId | SessionId string

text \<open>
  The fields of a Cart document that the methods below read or write; \<open>currency\<close>,
  \<open>expiresAt\<close>, \<open>shipping.method\<close> and \<open>shipping.address\<close> are touched by none of them.
\<close>

record cart =
  cart_id :: object_id
  cart_user :: "object_id option"
  cart_sessionId :: session_id
  cart_items :: "cart_item list"
  cart_subtotal :: int
  cart_tax :: int
  cart_shipping_cost :: int
  cart_discount :: discount
  cart_total :: int
  cart_isActive :: bool
  cart_lastActivity :: date

text \<open>
  The errors of the modelled code: the \<open>Error\<close> that \<open>updateItemQuantity\<close> throws, the
  \<open>TypeError\<close> of a method call on \<open>null\<close>, and the two errors with which
  \<open>Document.save\<close> rejects, the \<open>ValidationError\<close> of the schema validators and the
  duplicate key error of a unique index.
\<close>

datatype error = ItemNotFound | TypeError | ValidationError | DuplicateKey

text \<open>The virtual \<open>uniqueItems\<close>: \<open>this.items.length\<close>.\<close>

definition uniqueItems :: "cart \<Rightarrow> nat" where
  "uniqueItems c = length (cart_items c)"

text \<open>
  \<open>calculateTotals\<close>: the subtotal is the \<open>reduce\<close> of the lines from 0, the total is
  computed from the subtotal just stored.
\<close>

definition calculateTotals :: "cart \<Rightarrow> cart" where
  "calculateTotals c =
     (let c1 = c\<lparr>cart_subtotal := foldl (\<lambda>total item. total + item_total item) 0 (cart_items c)\<rparr>
      in c1\<lparr>cart_total :=
             cart_subtotal c1 + cart_tax c1 + cart_shipping_cost c1
               - discount_amount (cart_discount c1)\<rparr>)"

text \<open>
  \<open>Array.prototype.find\<close> returns the first element that satisfies the predicate, and
  an assignment to a field of that element changes the element where it stands in
  the array: \<open>update_first\<close> rewrites the first element that satisfies \<open>P\<close>.
\<close>

fun update_first :: "('a \<Rightarrow> bool) \<Rightarrow> ('a \<Rightarrow> 'a) \<Rightarrow> 'a list \<Rightarrow> 'a list" where
  "update_first P f [] = []"
| "update_first P f (x # xs) = (if P x then f x # xs else x # update_first P f xs)"

text \<open>
  The \<open>variant\<close> argument of \<open>addItem\<close> is a JavaScript value: \<open>null\<close> (\<open>None\<close>), or
  an object, given by its own properties in the order in which \<open>JSON.stringify\<close>
  enumerates them, with strings as values.
\<close>

type_synonym js_object = "(string \<times> string) list"
type_synonym js_variant = "js_object option"

text \<open>
  \<open>JSON.stringify\<close> on such a value. A string is written between double quotes
  (\<open>CHR 0x22\<close>), with the double quote and the backslash (\<open>CHR 0x5C\<close>) escaped by a
  backslash, the control characters written as \<open>\b \t \n \f \r\<close> or \<open>\u00XX\<close>, and every
  other character as it is; an object is its members \<open>"key":"value"\<close> in order,
  separated by commas, between braces.
\<close>

definition short_escape :: "char \<Rightarrow> char option" where
  "short_escape c =
     (if c = CHR 0x22 then Some (CHR 0x22)
      else if c = CHR 0x5C then Some (CHR 0x5C)
      else if c = CHR 0x08 then Some CHR ''b''
      else if c = CHR 0x09 then Some CHR ''t''
      else if c = CHR 0x0A then Some CHR ''n''
      else if c = CHR 0x0C then Some CHR ''f''
      else if c = CHR 0x0D then Some CHR ''r''
      else None)"

definition hex_digit :: "nat \<Rightarrow> char" where
  "hex_digit n = ''0123456789abcdef'' ! n"

definition escape_char :: "char \<Rightarrow> string" where
  "escape_char c =
     (case short_escape c of
        Some x \<Rightarrow> [CHR 0x5C, x]
      | None \<Rightarrow>
          if (of_char c :: nat) < 32
          then CHR 0x5C # ''u00'' @ [hex_digit (of_char c div 16), hex_digit (of_char c mod 16)]
          else [c])"

definition json_quote :: "string \<Rightarrow> string" where
  "json_quote s = CHR 0x22 # concat (map escape_char s) @ [CHR 0x22]"

definition json_member :: "string \<times> string \<Rightarrow> string" where
  "json_member kv = json_quote (fst kv) @ CHR '':'' # json_quote (snd kv)"

fun json_members :: "js_object \<Rightarrow> string" where
  "json_members [] = []"
| "json_members [kv] = json_member kv"
| "json_members (kv # kvs) = json_member kv @ CHR '','' # json_members kvs"

definition JSON_stringify :: "js_variant \<Rightarrow> string" where
  "JSON_stringify v = (case v of None \<Rightarrow> ''null'' | Some kvs \<Rightarrow> CHR ''{'' # json_members kvs @ ''}'')"

text \<open>
  A line stores the variant cast to the schema \<open>{ name: String, option: String }\<close>:
  \<open>null\<close> stays \<open>null\<close>, and of an object the paths \<open>name\<close> and \<open>option\<close> are kept, whatever
  the order in which the argument listed them and whatever else it held. Read back, the
  stored variant has its properties in the order of the schema, an absent one left out.
\<close>

definition cast_variant :: "js_variant \<Rightarrow> variant option" where
  "cast_variant v =
     (case v of
        None \<Rightarrow> None
      | Some kvs \<Rightarrow> Some \<lparr>variant_name = map_of kvs ''name'', variant_option = map_of kvs ''option''\<rparr>)"

definition stored_properties :: "variant \<Rightarrow> js_object" where
  "stored_properties r =
     (case variant_name r of None \<Rightarrow> [] | Some n \<Rightarrow> [(''name'', n)]) @
     (case variant_option r of None \<Rightarrow> [] | Some x \<Rightarrow> [(''option'', x)])"

definition stored_json :: "variant option \<Rightarrow> js_variant" where
  "stored_json v = map_option stored_properties v"

text \<open>
  The predicate of \<open>addItem\<close> and \<open>mergeCarts\<close> on a line: the same product, and
  \<open>JSON.stringify(item.variant) === JSON.stringify(variant)\<close>, a comparison of two
  strings. A line's \<open>product\<close> is the reference it was stored with.
\<close>

definition same_line :: "object_id \<Rightarrow> js_variant \<Rightarrow> cart_item \<Rightarrow> bool" where
  "same_line p v item \<longleftrightarrow>
     item_product item = p \<and> JSON_stringify (stored_json (item_variant item)) = JSON_stringify v"

text \<open>\<open>existingItem.quantity += quantity; existingItem.total = existingItem.quantity * existingItem.price\<close>.\<close>

definition add_quantity :: "int \<Rightarrow> cart_item \<Rightarrow> cart_item" where
  "add_quantity n item =
     (let item1 = item\<lparr>item_quantity := item_quantity item + n\<rparr>
      in item1\<lparr>item_total := item_quantity item1 * item_price item1\<rparr>)"

text \<open>\<open>product.inventory.maxOrderQuantity || 100\<close>: 100 when the value is absent or 0.\<close>

definition or_100 :: "int option \<Rightarrow> int" where
  "or_100 m = (case m of None \<Rightarrow> 100 | Some n \<Rightarrow> if n = 0 then 100 else n)"

text \<open>
  \<open>addItem\<close>. \<open>newId\<close> is the \<open>_id\<close> Mongoose gives the subdocument it creates when an
  object is pushed onto \<open>items\<close>; \<open>available\<close> takes its schema default, and the
  variant is stored as the schema casts it.
\<close>

definition new_line :: "object_id \<Rightarrow> product \<Rightarrow> int \<Rightarrow> js_variant \<Rightarrow> cart_item" where
  "new_line newId p quantity v =
     \<lparr>item_id = newId,
      item_product = product_id p,
      item_name = product_name p,
      item_sku = product_sku p,
      item_quantity = quantity,
      item_price = product_price p,
      item_total = quantity * product_price p,
      item_variant = cast_variant v,
      item_image = product_primaryImage p,
      item_available = True,
      item_maxQuantity = or_100 (product_maxOrderQuantity p)\<rparr>"

definition addItem :: "object_id \<Rightarrow> product \<Rightarrow> int \<Rightarrow> js_variant \<Rightarrow> cart \<Rightarrow> cart" where
  "addItem newId p quantity v c =
     calculateTotals
       (case find (same_line (product_id p) v) (cart_items c) of
          Some existingItem \<Rightarrow>
            c\<lparr>cart_items :=
                update_first (same_line (product_id p) v) (add_quantity quantity) (cart_items c)\<rparr>
        | None \<Rightarrow> c\<lparr>cart_items := cart_items c @ [new_line newId p quantity v]\<rparr>)"

text \<open>
  \<open>items.id(itemId)\<close> is the first line whose \<open>_id\<close> is \<open>itemId\<close>, or \<open>null\<close>;
  \<open>items.pull(itemId)\<close> removes every line whose \<open>_id\<close> is \<open>itemId\<close>.
\<close>

definition items_id :: "cart_item list \<Rightarrow> object_id \<Rightarrow> cart_item option" where
  "items_id xs itemId = find (\<lambda>i. item_id i = itemId) xs"

definition pull :: "object_id \<Rightarrow> cart_item list \<Rightarrow> cart_item list" where
  "pull itemId xs = filter (\<lambda>i. item_id i \<noteq> itemId) xs"

text \<open>\<open>item.quantity = Math.min(quantity, item.maxQuantity); item.total = item.quantity * item.price\<close>.\<close>

definition set_quantity :: "int \<Rightarrow> cart_item \<Rightarrow> cart_item" where
  "set_quantity n item =
     (let item1 = item\<lparr>item_quantity := min n (item_maxQuantity item)\<rparr>
      in item1\<lparr>item_total := item_quantity item1 * item_price item1\<rparr>)"

text \<open>
  \<open>updateItemQuantity\<close> can throw. The result is the error thrown, if any, and the
  document after the call; when nothing is thrown the document is also the value
  returned (\<open>this\<close>).
\<close>

definition updateItemQuantity :: "object_id \<Rightarrow> int \<Rightarrow> cart \<Rightarrow> error option \<times> cart" where
  "updateItemQuantity itemId quantity c =
     (case items_id (cart_items c) itemId of
        None \<Rightarrow> (Some ItemNotFound, c)
      | Some item \<Rightarrow>
          (None,
           calculateTotals
             (if quantity \<le> 0 then c\<lparr>cart_items := pull itemId (cart_items c)\<rparr>
              else c\<lparr>cart_items :=
                     update_first (\<lambda>i. item_id i = itemId) (set_quantity quantity) (cart_items c)\<rparr>)))"

definition removeItem :: "object_id \<Rightarrow> cart \<Rightarrow> cart" where
  "removeItem itemId c = calculateTotals (c\<lparr>cart_items := pull itemId (cart_items c)\<rparr>)"

definition clear :: "cart \<Rightarrow> cart" where
  "clear c = calculateTotals (c\<lparr>cart_items := []\<rparr>)"

definition applyDiscount :: "string option \<Rightarrow> int \<Rightarrow> string \<Rightarrow> cart \<Rightarrow> cart" where
  "applyDiscount code amount type c =
     calculateTotals
       (c\<lparr>cart_discount :=
            \<lparr>discount_code = code, discount_amount = amount, discount_type = type,
             discount_valid = True\<rparr>\<rparr>)"

definition removeDiscount :: "cart \<Rightarrow> cart" where
  "removeDiscount c =
     calculateTotals
       (c\<lparr>cart_discount :=
            \<lparr>discount_code = None, discount_amount = 0, discount_type = ''fixed'',
             discount_valid = False\<rparr>\<rparr>)"

text \<open>
  A call of one of the mutating methods, and a sequence of calls on one document. A
  thrown error ends the sequence, as it ends the caller's request.
\<close>

datatype cart_call =
    AddItem object_id product int js_variant
  | UpdateItemQuantity object_id int
  | RemoveItem object_id
  | ApplyDiscount "string option" int string
  | RemoveDiscount
  | Clear

fun call :: "cart_call \<Rightarrow> cart \<Rightarrow> error option \<times> cart" where
  "call (AddItem newId p quantity v) c = (None, addItem newId p quantity v c)"
| "call (UpdateItemQuantity itemId quantity) c = updateItemQuantity itemId quantity c"
| "call (RemoveItem itemId) c = (None, removeItem itemId c)"
| "call (ApplyDiscount code amount type) c = (None, applyDiscount code amount type c)"
| "call RemoveDiscount c = (None, removeDiscount c)"
| "call Clear c = (None, clear c)"

fun calls :: "cart_call list \<Rightarrow> cart \<Rightarrow> error option \<times> cart" where
  "calls [] c = (None, c)"
| "calls (k # ks) c =
     (case call k c of
        (Some e, c') \<Rightarrow> (Some e, c')
      | (None, c') \<Rightarrow> calls ks c')"

text \<open>
  The \<open>_id\<close> of a pushed line is fresh when no line of the cart has it (Mongoose
  generates a new ObjectId for every subdocument it creates).
\<close>

definition fresh_id :: "cart_call \<Rightarrow> cart \<Rightarrow> bool" where
  "fresh_id k c =
     (case k of AddItem newId p quantity v \<Rightarrow> newId \<notin> item_id ` set (cart_items c) | _ \<Rightarrow> True)"

text \<open>The relation of the totals to the lines that the specification states.\<close>

definition totals_ok :: "cart \<Rightarrow> bool" where
  "totals_ok c \<longleftrightarrow>
     cart_subtotal c = sum_list (map item_total (cart_items c)) \<and>
     cart_total c =
       cart_subtotal c + cart_tax c + cart_shipping_cost c - discount_amount (cart_discount c)"



text \<open>
  The validators of the cart schema and of the line schema on the modelled fields:
  \<open>required\<close> (which an empty string fails) and the \<open>min\<close> and \<open>enum\<close> constraints.
  Every line of the model holds a product reference, so \<open>required\<close> on \<open>product\<close> is
  not a condition here; what happens to it on a cart that was populated while a
  referenced product was missing is left to the hypotheses of the theorems about
  \<open>mergeCarts\<close>, which take the products to exist wherever a save has to succeed.
\<close>

definition valid_item :: "cart_item \<Rightarrow> bool" where
  "valid_item i \<longleftrightarrow>
     item_name i \<noteq> [] \<and> 1 \<le> item_quantity i \<and> 0 \<le> item_price i \<and> 0 \<le> item_total i"

definition valid_cart :: "cart \<Rightarrow> bool" where
  "valid_cart c \<longleftrightarrow>
     cart_user c \<noteq> None \<and>
     list_all valid_item (cart_items c) \<and>
     0 \<le> cart_subtotal c \<and> 0 \<le> cart_tax c \<and> 0 \<le> cart_shipping_cost c \<and>
     0 \<le> discount_amount (cart_discount c) \<and>
     (discount_type (cart_discount c) = ''percentage'' \<or> discount_type (cart_discount c) = ''fixed'') \<and>
     0 \<le> cart_total c"

text \<open>
  \<open>Document.save\<close> on a document \<open>doc\<close> that was loaded as \<open>loaded\<close>. The document is
  validated as it stands and the call rejects with a \<open>ValidationError\<close>, writing
  nothing, when it fails. Otherwise the two \<open>pre('save')\<close> hooks run
  (\<open>lastActivity = new Date()\<close>, then \<open>calculateTotals\<close>) and the paths whose value is
  no longer the loaded one are written to the stored document of that \<open>_id\<close>, the other
  paths of the stored document staying as they are. The schema puts a unique sparse
  index on \<open>sessionId\<close>, which has an entry for every document that has the path, also
  when it holds \<open>null\<close>: a write of a \<open>sessionId\<close> that another document holds is
  refused with a duplicate key error, and nothing is written. The call resolves to
  the document.
\<close>

definition pre_save :: "date \<Rightarrow> cart \<Rightarrow> cart" where
  "pre_save now c = calculateTotals (c\<lparr>cart_lastActivity := now\<rparr>)"

definition write_modified :: "cart \<Rightarrow> cart \<Rightarrow> cart \<Rightarrow> cart" where
  "write_modified loaded doc stored =
     stored
       \<lparr>cart_user := (if cart_user doc = cart_user loaded then cart_user stored else cart_user doc),
        cart_sessionId :=
          (if cart_sessionId doc = cart_sessionId loaded then cart_sessionId stored
           else cart_sessionId doc),
        cart_items :=
          (if cart_items doc = cart_items loaded then cart_items stored else cart_items doc),
        cart_subtotal :=
          (if cart_subtotal doc = cart_subtotal loaded then cart_subtotal stored
           else cart_subtotal doc),
        cart_tax := (if cart_tax doc = cart_tax loaded then cart_tax stored else cart_tax doc),
        cart_shipping_cost :=
          (if cart_shipping_cost doc = cart_shipping_cost loaded then cart_shipping_cost stored
           else cart_shipping_cost doc),
        cart_discount :=
          (if cart_discount doc = cart_discount loaded then cart_discount stored
           else cart_discount doc),
        cart_total :=
          (if cart_total doc = cart_total loaded then cart_total stored else cart_total doc),
        cart_isActive :=
          (if cart_isActive doc = cart_isActive loaded then cart_isActive stored
           else cart_isActive doc),
        cart_lastActivity :=
          (if cart_lastActivity doc = cart_lastActivity loaded then cart_lastActivity stored
           else cart_lastActivity doc)\<rparr>"

definition duplicate_key :: "cart \<Rightarrow> cart \<Rightarrow> cart list \<Rightarrow> bool" where
  "duplicate_key loaded doc store \<longleftrightarrow>
     cart_sessionId doc \<noteq> cart_sessionId loaded \<and> cart_sessionId doc \<noteq> NoSessionId \<and>
     (\<exists>d\<in>set store. cart_id d \<noteq> cart_id doc \<and> cart_sessionId d = cart_sessionId doc)"

definition save :: "date \<Rightarrow> cart \<Rightarrow> cart \<Rightarrow> cart list \<Rightarrow> (error + cart) \<times> cart list" where
  "save now loaded doc store =
     (if \<not> valid_cart doc then (Inl ValidationError, store)
      else (let doc' = pre_save now doc
            in if duplicate_key loaded doc' store then (Inl DuplicateKey, store)
               else (Inr doc',
                     map (\<lambda>d. if cart_id d = cart_id doc then write_modified loaded doc' d else d)
                       store)))"









section \<open>Order\<close>

record status_entry =
  hist_status :: string
  hist_timestamp :: date
  hist_note :: "string option"
  hist_updatedBy :: "object_id option"

record refund =
  refund_amount :: int
  refund_reason :: string
  refund_processedAt :: date
  refund_processedBy :: object_id

text \<open>
  The fields of an Order document that the hook and the methods below read or write.
  \<open>status\<close> and \<open>paymentStatus\<close> are strings: the schema's \<open>enum\<close> is checked when the
  document is validated, not when a method assigns the field.
\<close>

record order =
  order_orderNumber :: "string option"
  order_user :: object_id
  order_status :: string
  order_paymentStatus :: string
  order_total :: int
  order_statusHistory :: "status_entry list"
  order_refund :: "refund option"
  order_createdAt :: date

definition canBeCancelled :: "order \<Rightarrow> bool" where
  "canBeCancelled ord \<longleftrightarrow> order_status ord \<in> set [''pending'', ''confirmed'', ''processing'']"

definition canBeRefunded :: "order \<Rightarrow> bool" where
  "canBeRefunded ord \<longleftrightarrow> order_paymentStatus ord = ''paid'' \<and> order_status ord = ''delivered''"

text \<open>\<open>updateStatus\<close>; \<open>now\<close> is the clock reading of \<open>new Date()\<close>.\<close>

definition updateStatus :: "date \<Rightarrow> string \<Rightarrow> string \<Rightarrow> object_id option \<Rightarrow> order \<Rightarrow> order" where
  "updateStatus now newStatus note updatedBy ord =
     (let o1 = ord\<lparr>order_status := newStatus\<rparr>
      in o1\<lparr>order_statusHistory :=
             order_statusHistory o1 @
               [\<lparr>hist_status = newStatus, hist_timestamp = now, hist_note = Some note,
                 hist_updatedBy = updatedBy\<rparr>]\<rparr>)"

definition processRefund :: "date \<Rightarrow> int \<Rightarrow> string \<Rightarrow> object_id \<Rightarrow> order \<Rightarrow> order" where
  "processRefund now amount reason processedBy ord =
     (let o1 = ord\<lparr>order_refund :=
                  Some \<lparr>refund_amount = amount, refund_reason = reason,
                        refund_processedAt = now, refund_processedBy = processedBy\<rparr>\<rparr>;
          o2 = o1\<lparr>order_paymentStatus :=
                  (if amount \<ge> order_total o1 then ''refunded'' else ''partially_refunded'')\<rparr>
      in o2\<lparr>order_status := ''refunded''\<rparr>)"

subsection \<open>The order number\<close>

text \<open>
  \<open>Number.prototype.toString\<close> of an integer: its decimal digits, after a minus sign
  when it is negative (the exponent form of numbers from \<open>1e21\<close> on is outside the model).
\<close>

definition digit_char :: "nat \<Rightarrow> char" where
  "digit_char n = ''0123456789'' ! (n mod 10)"

fun digits :: "nat \<Rightarrow> string" where
  "digits n = (if n < 10 then [digit_char n] else digits (n div 10) @ [digit_char (n mod 10)])"

declare digits.simps [simp del]

definition toString :: "int \<Rightarrow> string" where
  "toString i = (if i < 0 then CHR ''-'' # digits (nat (- i)) else digits (nat i))"

text \<open>\<open>s.padStart(n, c)\<close> for a one-character \<open>c\<close>, and \<open>s.slice(-k)\<close>.\<close>

definition padStart :: "nat \<Rightarrow> char \<Rightarrow> string \<Rightarrow> string" where
  "padStart n c s = replicate (n - length s) c @ s"

definition slice_last :: "nat \<Rightarrow> string \<Rightarrow> string" where
  "slice_last k s = drop (length s - k) s"

text \<open>
  What the hook reads of \<open>new Date()\<close>: the local year, month (from 0) and day of the
  month, and the time value of the local midnight \<open>new Date(y, m, d)\<close>.
\<close>

record local_date =
  getFullYear :: int
  getMonth :: nat
  getDate :: nat
  midnight :: date

text \<open>\<open>countDocuments({ createdAt: { $gte: today } })\<close> on the Order collection.\<close>

definition countDocuments_since :: "order list \<Rightarrow> date \<Rightarrow> nat" where
  "countDocuments_since store today = length (filter (\<lambda>ord. today \<le> order_createdAt ord) store)"

definition orderNumber_of :: "local_date \<Rightarrow> nat \<Rightarrow> string" where
  "orderNumber_of date count =
     (let y = slice_last 2 (toString (getFullYear date));
          m = padStart 2 CHR ''0'' (toString (int (getMonth date) + 1));
          d = padStart 2 CHR ''0'' (toString (int (getDate date)))
      in ''ORD'' @ y @ m @ d @ padStart 4 CHR ''0'' (toString (int count + 1)))"

text \<open>The first \<open>pre('save')\<close> hook of the Order schema; \<open>isNew\<close> is Mongoose's flag.\<close>

definition orderNumber_hook :: "local_date \<Rightarrow> order list \<Rightarrow> bool \<Rightarrow> order \<Rightarrow> order" where
  "orderNumber_hook date store isNew ord =
     (if isNew
      then ord\<lparr>order_orderNumber :=
               Some (orderNumber_of date (countDocuments_since store (midnight date)))\<rparr>
      else ord)"

text \<open>
  The format as the specification words it: \<open>ORD\<close>, the year, the calendar month and
  the day in two digits each, and the sequence number in at least four digits.
\<close>

definition two_digits :: "nat \<Rightarrow> string" where
  "two_digits n = [digit_char (n div 10), digit_char n]"

definition four_digits :: "nat \<Rightarrow> string" where
  "four_digits n =
     (if n < 10000
      then [digit_char (n div 1000), digit_char (n div 100), digit_char (n div 10), digit_char n]
      else digits n)"

definition spec_orderNumber :: "nat \<Rightarrow> nat \<Rightarrow> nat \<Rightarrow> nat \<Rightarrow> string" where
  "spec_orderNumber year month day n =
     ''ORD'' @ two_digits (year mod 100) @ two_digits month @ two_digits day @ four_digits (n + 1)"

section \<open>Review\<close>

text \<open>
  The \<open>helpful\<close> field of a Review document. \<open>markHelpful\<close> and \<open>unmarkHelpful\<close> end
  with \<open>this.save()\<close>, whose hook (when \<open>rating\<close> or \<open>status\<close> was modified) asks the
  product to recompute its rating summary and writes nothing to the review: the
  document saved is the document as the method left it, which the model returns.
\<close>

record helpful =
  helpful_count :: int
  helpful_users :: "object_id list"

record review =
  review_user :: object_id
  review_product :: object_id
  review_rating :: int
  review_status :: string
  review_helpful :: helpful

text \<open>
  \<open>indexOf\<close> of a Mongoose array of ObjectIds compares the identifiers; it is the
  first index of the value, or \<open>-1\<close>. \<open>includes\<close> (here \<open>array_includes\<close>) is
  \<open>indexOf(...) !== -1\<close>.
\<close>

fun indexOf :: "'a list \<Rightarrow> 'a \<Rightarrow> int" where
  "indexOf [] x = - 1"
| "indexOf (y # ys) x =
     (if y = x then 0 else (let i = indexOf ys x in if i = - 1 then - 1 else i + 1))"

definition array_includes :: "'a list \<Rightarrow> 'a \<Rightarrow> bool" where
  "array_includes xs x \<longleftrightarrow> indexOf xs x \<noteq> - 1"

text \<open>\<open>xs.splice(index, 1)\<close> for an index within the array.\<close>

definition splice1 :: "int \<Rightarrow> 'a list \<Rightarrow> 'a list" where
  "splice1 index xs = take (nat index) xs @ drop (nat index + 1) xs"

definition markHelpful :: "object_id \<Rightarrow> review \<Rightarrow> review" where
  "markHelpful userId r =
     (if \<not> array_includes (helpful_users (review_helpful r)) userId
      then r\<lparr>review_helpful :=
               \<lparr>helpful_count = helpful_count (review_helpful r) + 1,
                helpful_users = helpful_users (review_helpful r) @ [userId]\<rparr>\<rparr>
      else r)"

definition unmarkHelpful :: "object_id \<Rightarrow> review \<Rightarrow> review" where
  "unmarkHelpful userId r =
     (let index = indexOf (helpful_users (review_helpful r)) userId
      in if index > - 1
         then r\<lparr>review_helpful :=
                  \<lparr>helpful_count = max 0 (helpful_count (review_helpful r) - 1),
                   helpful_users = splice1 index (helpful_users (review_helpful r))\<rparr>\<rparr>
         else r)"

section \<open>Category\<close>

record ancestor =
  anc_id :: object_id
  anc_name :: string
  anc_slug :: string

record category =
  cat_id :: object_id
  cat_name :: string
  cat_slug :: string
  cat_parent :: "object_id option"
  cat_ancestors :: "ancestor list"
  cat_level :: int
  cat_status :: string
  cat_productCount :: nat

text \<open>
  What Mongoose knows of the document being saved: which paths were modified since it
  was loaded, and whether it is new.
\<close>

record save_flags =
  modified_name :: bool
  modified_parent :: bool
  modified_status :: bool
  isNew :: bool

definition summary :: "category \<Rightarrow> ancestor" where
  "summary parent = \<lparr>anc_id = cat_id parent, anc_name = cat_name parent, anc_slug = cat_slug parent\<rparr>"

text \<open>
  The \<open>pre('save')\<close> hook of the Category schema. \<open>slugify\<close> is the library function
  with the options the hook passes; \<open>findById\<close> is the lookup in the Category
  collection; \<open>countActive\<close> answers
  \<open>Product.countDocuments({ category: this._id, status: 'active' })\<close>.
\<close>

definition slug_step :: "(string \<Rightarrow> string) \<Rightarrow> save_flags \<Rightarrow> category \<Rightarrow> category" where
  "slug_step slugify flags this =
     (if modified_name flags then this\<lparr>cat_slug := slugify (cat_name this)\<rparr> else this)"

definition parent_step ::
  "(object_id \<Rightarrow> category option) \<Rightarrow> save_flags \<Rightarrow> category \<Rightarrow> category" where
  "parent_step findById flags this =
     (if modified_parent flags
      then (case cat_parent this of
              Some parentId \<Rightarrow>
                (case findById parentId of
                   Some parent \<Rightarrow>
                     this\<lparr>cat_level := cat_level parent + 1,
                          cat_ancestors := cat_ancestors parent @ [summary parent]\<rparr>
                 | None \<Rightarrow> this)
            | None \<Rightarrow> this\<lparr>cat_level := 0, cat_ancestors := []\<rparr>)
      else this)"

definition count_step :: "(object_id \<Rightarrow> nat) \<Rightarrow> save_flags \<Rightarrow> category \<Rightarrow> category" where
  "count_step countActive flags this =
     (if modified_status flags \<or> isNew flags
      then this\<lparr>cat_productCount := countActive (cat_id this)\<rparr>
      else this)"

definition category_pre_save ::
  "(string \<Rightarrow> string) \<Rightarrow> (object_id \<Rightarrow> category option) \<Rightarrow> (object_id \<Rightarrow> nat) \<Rightarrow>
   save_flags \<Rightarrow> category \<Rightarrow> category" where
  "category_pre_save slugify findById countActive flags this =
     count_step countActive flags (parent_step findById flags (slug_step slugify flags this))"

text \<open>
  Saving a category: the hook runs against the collection as it is, and the document
  is stored under its \<open>_id\<close>. No other document of the collection is written.
\<close>

definition category_save ::
  "(string \<Rightarrow> string) \<Rightarrow> (object_id \<Rightarrow> nat) \<Rightarrow> save_flags \<Rightarrow> category \<Rightarrow>
   (object_id \<Rightarrow> category option) \<Rightarrow> (object_id \<Rightarrow> category option)" where
  "category_save slugify countActive flags this store =
     store(cat_id this \<mapsto> category_pre_save slugify store countActive flags this)"

definition level_is_depth :: "category \<Rightarrow> bool" where
  "level_is_depth c \<longleftrightarrow> cat_level c = int (length (cat_ancestors c))"

section \<open>Sample documents\<close>

text \<open>Concrete documents on which the theorems below are instantiated.\<close>

definition empty_cart :: cart where
  "empty_cart =
     \<lparr>cart_id = 1, cart_user = Some 7, cart_sessionId = NoSessionId, cart_items = [],
      cart_subtotal = 0, cart_tax = 0, cart_shipping_cost = 0,
      cart_discount =
        \<lparr>discount_code = None, discount_amount = 0, discount_type = ''fixed'',
         discount_valid = False\<rparr>,
      cart_total = 0, cart_isActive = True, cart_lastActivity = 0\<rparr>"

definition pen :: product where
  "pen = \<lparr>product_id = 20, product_name = ''pen'', product_sku = Some ''P-1'',
          product_price = 3, product_primaryImage = None, product_maxOrderQuantity = Some 10\<rparr>"

definition discounted_cart :: cart where
  "discounted_cart = applyDiscount (Some ''WELCOME'') 50 ''fixed'' empty_cart"

definition ink :: product where
  "ink = \<lparr>product_id = 21, product_name = ''ink'', product_sku = None,
          product_price = 7, product_primaryImage = None, product_maxOrderQuantity = None\<rparr>"

definition two_lines :: cart where
  "two_lines =
     calculateTotals (empty_cart\<lparr>cart_items := [new_line 100 pen 2 None, new_line 101 ink 1 None]\<rparr>)"







definition shipped_order :: order where
  "shipped_order =
     \<lparr>order_orderNumber = Some ''ORD2611020001'', order_user = 7, order_status = ''shipped'',
      order_paymentStatus = ''paid'', order_total = 100, order_statusHistory = [],
      order_refund = None, order_createdAt = 0\<rparr>"

definition today :: local_date where
  "today = \<lparr>getFullYear = 2026, getMonth = 10, getDate = 2, midnight = 1000\<rparr>"

definition orders_so_far :: "order list" where
  "orders_so_far =
     [shipped_order\<lparr>order_createdAt := 500\<rparr>, shipped_order\<lparr>order_createdAt := 1500\<rparr>]"

definition liked_review :: review where
  "liked_review =
     \<lparr>review_user = 1, review_product = 20, review_rating = 4, review_status = ''approved'',
      review_helpful = \<lparr>helpful_count = 2, helpful_users = [7, 8]\<rparr>\<rparr>"

definition audio :: category where
  "audio = \<lparr>cat_id = 1, cat_name = ''Audio'', cat_slug = ''audio'', cat_parent = None,
            cat_ancestors = [], cat_level = 0, cat_status = ''active'', cat_productCount = 0\<rparr>"

definition speakers :: category where
  "speakers = \<lparr>cat_id = 2, cat_name = ''Speakers'', cat_slug = ''speakers'',
               cat_parent = Some 1, cat_ancestors = [summary audio], cat_level = 1,
               cat_status = ''active'', cat_productCount = 0\<rparr>"

definition soundbars :: category where
  "soundbars = \<lparr>cat_id = 3, cat_name = ''Soundbars'', cat_slug = ''soundbars'',
                cat_parent = Some 2, cat_ancestors = [summary audio, summary speakers],
                cat_level = 2, cat_status = ''active'', cat_productCount = 0\<rparr>"

definition categories :: "object_id \<Rightarrow> category option" where
  "categories = map_of [(1, audio), (2, speakers), (3, soundbars)]"

definition parent_changed :: save_flags where
  "parent_changed =
     \<lparr>modified_name = False, modified_parent = True, modified_status = False, isNew = False\<rparr>"

section \<open>Lists and the sample products\<close>

lemma update_first_split:
  "find P xs = Some e \<Longrightarrow>
   \<exists>pre post. xs = pre @ e # post \<and> (\<forall>x\<in>set pre. \<not> P x) \<and> P e \<and>
     update_first P f xs = pre @ f e # post"
proof (induction xs)
  case Nil
  then show ?case by simp
next
  case (Cons x xs)
  show ?case
  proof (cases "P x")
    case True
    with Cons.prems have "x = e" by simp
    with True have "x # xs = [] @ e # xs \<and> (\<forall>y\<in>set []. \<not> P y) \<and> P e \<and>
      update_first P f (x # xs) = [] @ f e # xs" by simp
    then show ?thesis by blast
  next
    case False
    with Cons.prems have "find P xs = Some e" by simp
    from Cons.IH [OF this] obtain pre post where
      h: "xs = pre @ e # post" "\<forall>y\<in>set pre. \<not> P y" "P e"
         "update_first P f xs = pre @ f e # post" by blast
    with False have "x # xs = (x # pre) @ e # post \<and> (\<forall>y\<in>set (x # pre). \<not> P y) \<and> P e \<and>
      update_first P f (x # xs) = (x # pre) @ f e # post" by simp
    then show ?thesis by blast
  qed
qed

lemma find_Some_ex: "(\<exists>x\<in>set xs. P x) \<Longrightarrow> \<exists>e. find P xs = Some e"
  by (cases "find P xs") (auto simp: find_None_iff)



lemma pen_fields:
  "product_id pen = 20" "product_name pen = ''pen''" "product_sku pen = Some ''P-1''"
  "product_price pen = 3" "product_primaryImage pen = None"
  "product_maxOrderQuantity pen = Some 10"
  by (simp_all add: pen_def)


section \<open>The text of a variant\<close>

















section \<open>Cart: the totals\<close>

lemma foldl_item_total:
  "foldl (\<lambda>total item. total + item_total item) a xs = a + sum_list (map item_total xs)"
  by (induction xs arbitrary: a) simp_all

lemma calculateTotals_fields:
  "cart_items (calculateTotals c) = cart_items c"
  "cart_tax (calculateTotals c) = cart_tax c"
  "cart_shipping_cost (calculateTotals c) = cart_shipping_cost c"
  "cart_discount (calculateTotals c) = cart_discount c"
  "cart_subtotal (calculateTotals c) = sum_list (map item_total (cart_items c))"
  "cart_total (calculateTotals c) =
     sum_list (map item_total (cart_items c)) + cart_tax c + cart_shipping_cost c
       - discount_amount (cart_discount c)"
  by (simp_all add: calculateTotals_def Let_def foldl_item_total)

lemma totals_ok_calculateTotals: "totals_ok (calculateTotals c)"
  by (simp add: totals_ok_def calculateTotals_fields)

lemma call_totals_ok:
  "call k c = (None, c') \<Longrightarrow> totals_ok c'"
  by (cases k)
     (auto simp: addItem_def updateItemQuantity_def removeItem_def clear_def
        applyDiscount_def removeDiscount_def totals_ok_calculateTotals
        split: option.splits)

lemma call_throws_unchanged:
  "call k c = (Some e, c') \<Longrightarrow> c' = c"
  by (cases k) (auto simp: updateItemQuantity_def split: option.splits)

lemma calls_totals_ok:
  "calls ks c = (None, c') \<Longrightarrow> ks \<noteq> [] \<Longrightarrow> totals_ok c'"
proof (induction ks arbitrary: c)
  case Nil
  then show ?case by simp
next
  case (Cons k ks)
  obtain r c1 where k: "call k c = (r, c1)" by (cases "call k c")
  with Cons.prems(1) have r: "r = None" and rest: "calls ks c1 = (None, c')"
    by (auto split: option.splits)
  show ?case
  proof (cases ks)
    case Nil
    with rest have "c' = c1" by simp
    with k r show ?thesis by (simp add: call_totals_ok)
  next
    case (Cons a list)
    with Cons.IH [OF rest] show ?thesis by simp
  qed
qed

lemma calls_preserve_totals_ok:
  "totals_ok c \<Longrightarrow> totals_ok (snd (calls ks c))"
proof (induction ks arbitrary: c)
  case Nil
  then show ?case by simp
next
  case (Cons k ks)
  obtain r c1 where k: "call k c = (r, c1)" by (cases "call k c")
  show ?case
  proof (cases r)
    case None
    with k have "totals_ok c1" by (simp add: call_totals_ok)
    from Cons.IH [OF this] k None show ?thesis by simp
  next
    case (Some e)
    with k have "c1 = c" by (simp add: call_throws_unchanged)
    with k Some Cons.prems show ?thesis by simp
  qed
qed

text \<open>
  Claim C1. For every cart, \<open>calculateTotals\<close> leaves the lines, the tax, the shipping
  cost and the discount as they are and stores \<open>subtotal\<close> = the sum of \<open>item.total\<close>
  over the lines and \<open>total = subtotal + tax + shipping.cost - discount.amount\<close>.
  Every sequence of \<open>addItem\<close>, \<open>updateItemQuantity\<close>, \<open>removeItem\<close>, \<open>applyDiscount\<close>,
  \<open>removeDiscount\<close> and \<open>clear\<close> calls that returns leaves the cart with these two
  equations (a non-empty sequence establishes them, an interrupted one keeps them).
  There is no floor at zero: whenever the discount amount exceeds the sum of the line
  totals plus tax plus shipping cost the total is negative, and such a cart exists.
\<close>

theorem calculateTotals_totals:
  "cart_items (calculateTotals c) = cart_items c \<and>
   cart_tax (calculateTotals c) = cart_tax c \<and>
   cart_shipping_cost (calculateTotals c) = cart_shipping_cost c \<and>
   cart_discount (calculateTotals c) = cart_discount c \<and>
   cart_subtotal (calculateTotals c) = sum_list (map item_total (cart_items (calculateTotals c))) \<and>
   cart_total (calculateTotals c) =
     cart_subtotal (calculateTotals c) + cart_tax (calculateTotals c)
       + cart_shipping_cost (calculateTotals c) - discount_amount (cart_discount (calculateTotals c)) \<and>
   (calls ks c = (None, c') \<and> ks \<noteq> [] \<longrightarrow> totals_ok c') \<and>
   (totals_ok c \<longrightarrow> totals_ok (snd (calls ks c))) \<and>
   (sum_list (map item_total (cart_items c)) + cart_tax c + cart_shipping_cost c
      < discount_amount (cart_discount c) \<longrightarrow> cart_total (calculateTotals c) < 0) \<and>
   (\<exists>d. cart_subtotal (calculateTotals d) + cart_tax (calculateTotals d)
            + cart_shipping_cost (calculateTotals d)
          < discount_amount (cart_discount (calculateTotals d)) \<and>
        cart_total (calculateTotals d) < 0)"
proof -
  have neg: "cart_subtotal (calculateTotals (applyDiscount None 5 ''fixed'' empty_cart))
        + cart_tax (calculateTotals (applyDiscount None 5 ''fixed'' empty_cart))
        + cart_shipping_cost (calculateTotals (applyDiscount None 5 ''fixed'' empty_cart))
      < discount_amount (cart_discount (calculateTotals (applyDiscount None 5 ''fixed'' empty_cart))) \<and>
    cart_total (calculateTotals (applyDiscount None 5 ''fixed'' empty_cart)) < 0"
    by (simp add: calculateTotals_fields applyDiscount_def empty_cart_def)
  have ex: "\<exists>d. cart_subtotal (calculateTotals d) + cart_tax (calculateTotals d)
            + cart_shipping_cost (calculateTotals d)
          < discount_amount (cart_discount (calculateTotals d)) \<and>
        cart_total (calculateTotals d) < 0"
    using neg by blast
  have seq: "calls ks c = (None, c') \<and> ks \<noteq> [] \<longrightarrow> totals_ok c'"
    using calls_totals_ok by blast
  have keep: "totals_ok c \<longrightarrow> totals_ok (snd (calls ks c))"
    using calls_preserve_totals_ok by blast
  show ?thesis
    using ex seq keep by (simp add: calculateTotals_fields)
qed

theorem calculateTotals_totals_witness:
  "calls [AddItem 100 pen 2 None, UpdateItemQuantity 100 4] discounted_cart
     = (None, snd (calls [AddItem 100 pen 2 None, UpdateItemQuantity 100 4] discounted_cart)) \<and>
   [AddItem 100 pen 2 None, UpdateItemQuantity 100 4] \<noteq> [] \<and>
   totals_ok (snd (calls [AddItem 100 pen 2 None, UpdateItemQuantity 100 4] discounted_cart)) \<and>
   cart_subtotal (snd (calls [AddItem 100 pen 2 None, UpdateItemQuantity 100 4] discounted_cart)) = 12 \<and>
   cart_total (snd (calls [AddItem 100 pen 2 None, UpdateItemQuantity 100 4] discounted_cart)) = - 38 \<and>
   totals_ok discounted_cart \<and>
   sum_list (map item_total (cart_items discounted_cart)) + cart_tax discounted_cart
       + cart_shipping_cost discounted_cart
     < discount_amount (cart_discount discounted_cart) \<and>
   cart_total (calculateTotals discounted_cart) < 0"
proof -
  let ?ks = "[AddItem 100 pen 2 None, UpdateItemQuantity 100 4]"
  have run: "calls ?ks discounted_cart = (None, snd (calls ?ks discounted_cart))"
    by (simp add: discounted_cart_def applyDiscount_def empty_cart_def addItem_def
        updateItemQuantity_def items_id_def new_line_def pen_def same_line_def
        calculateTotals_def)
  have sub: "cart_subtotal (snd (calls ?ks discounted_cart)) = 12"
    by (simp add: discounted_cart_def applyDiscount_def empty_cart_def addItem_def
        updateItemQuantity_def items_id_def new_line_def pen_def same_line_def
        calculateTotals_def set_quantity_def or_100_def)
  have tot: "cart_total (snd (calls ?ks discounted_cart)) = - 38"
    by (simp add: discounted_cart_def applyDiscount_def empty_cart_def addItem_def
        updateItemQuantity_def items_id_def new_line_def pen_def same_line_def
        calculateTotals_def set_quantity_def or_100_def)
  have ok: "totals_ok discounted_cart"
    by (simp add: discounted_cart_def applyDiscount_def totals_ok_calculateTotals)
  have big: "sum_list (map item_total (cart_items discounted_cart)) + cart_tax discounted_cart
       + cart_shipping_cost discounted_cart
     < discount_amount (cart_discount discounted_cart)"
    by (simp add: discounted_cart_def applyDiscount_def empty_cart_def calculateTotals_fields)
  from calculateTotals_totals [of discounted_cart ?ks "snd (calls ?ks discounted_cart)"]
    run ok big sub tot
  show ?thesis by simp
qed

section \<open>Cart: changing and removing a line\<close>

lemma items_id_None: "items_id xs itemId = None \<longleftrightarrow> itemId \<notin> item_id ` set xs"
  by (auto simp: items_id_def find_None_iff)

lemma pull_length_lt:
  "itemId \<in> item_id ` set xs \<Longrightarrow> length (pull itemId xs) < length xs"
  unfolding pull_def by (induction xs) (auto simp: less_Suc_eq_le)

lemma pull_length_distinct:
  "itemId \<in> item_id ` set xs \<Longrightarrow> distinct (map item_id xs) \<Longrightarrow>
   length (pull itemId xs) + 1 = length xs"
  unfolding pull_def
proof (induction xs)
  case Nil
  then show ?case by simp
next
  case (Cons x xs)
  show ?case
  proof (cases "item_id x = itemId")
    case True
    with Cons.prems(2) have "itemId \<notin> item_id ` set xs" by auto
    then have "filter (\<lambda>i. item_id i \<noteq> itemId) xs = xs"
      by (auto simp: filter_id_conv)
    with True show ?thesis by simp
  next
    case False
    with Cons.prems have "itemId \<in> item_id ` set xs" "distinct (map item_id xs)" by auto
    from Cons.IH [OF this] False show ?thesis by simp
  qed
qed

lemma pull_absent: "itemId \<notin> item_id ` set xs \<Longrightarrow> pull itemId xs = xs"
  unfolding pull_def by (auto simp: filter_id_conv)

lemma pull_removes: "itemId \<notin> item_id ` set (pull itemId xs)"
  unfolding pull_def by auto

lemma updateItemQuantity_unknown:
  "itemId \<notin> item_id ` set (cart_items c) \<Longrightarrow>
   updateItemQuantity itemId q c = (Some ItemNotFound, c)"
proof -
  assume "itemId \<notin> item_id ` set (cart_items c)"
  then have "items_id (cart_items c) itemId = None" by (simp add: items_id_None)
  then show ?thesis by (simp add: updateItemQuantity_def)
qed

lemma updateItemQuantity_known:
  assumes "itemId \<in> item_id ` set (cart_items c)"
  shows "updateItemQuantity itemId q c =
    (None, calculateTotals
       (if q \<le> 0 then c\<lparr>cart_items := pull itemId (cart_items c)\<rparr>
        else c\<lparr>cart_items :=
               update_first (\<lambda>i. item_id i = itemId) (set_quantity q) (cart_items c)\<rparr>))"
proof -
  from assms have "items_id (cart_items c) itemId \<noteq> None" by (simp add: items_id_None)
  then obtain e where "items_id (cart_items c) itemId = Some e" by blast
  then show ?thesis by (simp add: updateItemQuantity_def)
qed

lemma updateItemQuantity_set:
  assumes "itemId \<in> item_id ` set (cart_items c)" and "0 < q"
  shows "\<exists>pre e post. cart_items c = pre @ e # post \<and> itemId \<notin> item_id ` set pre \<and>
      item_id e = itemId \<and>
      cart_items (snd (updateItemQuantity itemId q c)) =
        pre @ e\<lparr>item_quantity := min q (item_maxQuantity e),
                 item_total := min q (item_maxQuantity e) * item_price e\<rparr> # post"
proof -
  let ?P = "\<lambda>i. item_id i = itemId"
  from assms(1) have "\<exists>i\<in>set (cart_items c). ?P i" by auto
  from find_Some_ex [OF this] obtain e where e: "find ?P (cart_items c) = Some e" ..
  from update_first_split [OF e, of "set_quantity q"] obtain pre post where
    h: "cart_items c = pre @ e # post" "\<forall>x\<in>set pre. \<not> ?P x" "?P e"
       "update_first ?P (set_quantity q) (cart_items c) = pre @ set_quantity q e # post"
    by blast
  have r: "cart_items (snd (updateItemQuantity itemId q c)) = pre @ set_quantity q e # post"
    using assms(2) h(4)
    by (simp add: updateItemQuantity_known [OF assms(1)] calculateTotals_fields)
  have sq: "set_quantity q e =
      e\<lparr>item_quantity := min q (item_maxQuantity e),
        item_total := min q (item_maxQuantity e) * item_price e\<rparr>"
    by (simp add: set_quantity_def Let_def)
  show ?thesis
  proof (intro exI conjI)
    show "cart_items c = pre @ e # post" by (rule h(1))
    show "itemId \<notin> item_id ` set pre" using h(2) by auto
    show "item_id e = itemId" by (rule h(3))
    show "cart_items (snd (updateItemQuantity itemId q c)) =
        pre @ e\<lparr>item_quantity := min q (item_maxQuantity e),
                 item_total := min q (item_maxQuantity e) * item_price e\<rparr> # post"
      using r sq by simp
  qed
qed

lemma call_throws:
  assumes "call k c = (Some err, c')"
  shows "(\<exists>i n. k = UpdateItemQuantity i n \<and> i \<notin> item_id ` set (cart_items c)) \<and>
         err = ItemNotFound \<and> c' = c"
proof (cases k)
  case (UpdateItemQuantity i n)
  show ?thesis
  proof (cases "i \<in> item_id ` set (cart_items c)")
    case True
    with assms UpdateItemQuantity show ?thesis
      by (simp add: updateItemQuantity_known)
  next
    case False
    with assms UpdateItemQuantity show ?thesis
      by (simp add: updateItemQuantity_unknown)
  qed
qed (use assms in simp_all)

lemma update_first_ids:
  "(\<And>x. item_id (f x) = item_id x) \<Longrightarrow> map item_id (update_first P f xs) = map item_id xs"
  by (induction xs) simp_all

lemma item_id_add_quantity: "item_id (add_quantity n e) = item_id e"
  by (simp add: add_quantity_def Let_def)

lemma item_id_set_quantity: "item_id (set_quantity n e) = item_id e"
  by (simp add: set_quantity_def Let_def)

lemma call_distinct_ids:
  assumes d: "distinct (map item_id (cart_items c))" and f: "fresh_id k c"
  shows "distinct (map item_id (cart_items (snd (call k c))))"
proof (cases k)
  case (AddItem newId p quantity v)
  with f have fresh: "newId \<notin> item_id ` set (cart_items c)" by (simp add: fresh_id_def)
  show ?thesis
  proof (cases "find (same_line (product_id p) v) (cart_items c)")
    case None
    with d fresh AddItem show ?thesis
      by (simp add: addItem_def calculateTotals_fields new_line_def)
  next
    case (Some e)
    with d AddItem show ?thesis
      by (simp add: addItem_def calculateTotals_fields update_first_ids item_id_add_quantity)
  qed
next
  case (UpdateItemQuantity itemId quantity)
  show ?thesis
  proof (cases "items_id (cart_items c) itemId")
    case None
    with d UpdateItemQuantity show ?thesis by (simp add: updateItemQuantity_def)
  next
    case (Some e)
    with d UpdateItemQuantity show ?thesis
      by (simp add: updateItemQuantity_def calculateTotals_fields pull_def distinct_map_filter
          update_first_ids item_id_set_quantity)
  qed
next
  case (RemoveItem itemId)
  with d show ?thesis
    by (simp add: removeItem_def calculateTotals_fields pull_def distinct_map_filter)
next
  case (ApplyDiscount code amount type)
  with d show ?thesis by (simp add: applyDiscount_def calculateTotals_fields)
next
  case RemoveDiscount
  with d show ?thesis by (simp add: removeDiscount_def calculateTotals_fields)
next
  case Clear
  then show ?thesis by (simp add: clear_def calculateTotals_fields)
qed

text \<open>
  Claim C5. \<open>updateItemQuantity(itemId, quantity)\<close>: when no line has the \<open>_id\<close> it
  throws "Item not found in cart" and the cart is as it was, and no other call of the
  cart's mutating methods throws. When a line has the \<open>_id\<close> and \<open>quantity <= 0\<close>, the
  lines of that \<open>_id\<close> are removed: \<open>uniqueItems\<close> decreases, by exactly 1 when the
  \<open>_id\<close>s of the lines are distinct, which every call of the cart's methods keeps
  them as long as pushed lines get fresh \<open>_id\<close>s. When
  \<open>quantity > 0\<close>, the line's quantity becomes \<open>min(quantity, maxQuantity)\<close> and its
  total that new quantity times its price, no other line changing. Whenever the call
  returns, the totals have been recomputed.
\<close>

theorem updateItemQuantity_cases:
  "(itemId \<notin> item_id ` set (cart_items c) \<longrightarrow>
      updateItemQuantity itemId q c = (Some ItemNotFound, c)) \<and>
   (itemId \<in> item_id ` set (cart_items c) \<and> q \<le> 0 \<longrightarrow>
      fst (updateItemQuantity itemId q c) = None \<and>
      cart_items (snd (updateItemQuantity itemId q c)) =
        filter (\<lambda>i. item_id i \<noteq> itemId) (cart_items c) \<and>
      uniqueItems (snd (updateItemQuantity itemId q c)) < uniqueItems c \<and>
      (distinct (map item_id (cart_items c)) \<longrightarrow>
         uniqueItems (snd (updateItemQuantity itemId q c)) + 1 = uniqueItems c)) \<and>
   (itemId \<in> item_id ` set (cart_items c) \<and> 0 < q \<longrightarrow>
      fst (updateItemQuantity itemId q c) = None \<and>
      (\<exists>pre e post. cart_items c = pre @ e # post \<and> itemId \<notin> item_id ` set pre \<and>
         item_id e = itemId \<and>
         cart_items (snd (updateItemQuantity itemId q c)) =
           pre @ e\<lparr>item_quantity := min q (item_maxQuantity e),
                    item_total := min q (item_maxQuantity e) * item_price e\<rparr> # post)) \<and>
   (fst (updateItemQuantity itemId q c) = None \<longrightarrow>
      totals_ok (snd (updateItemQuantity itemId q c))) \<and>
   (call k c = (Some err, c') \<longrightarrow>
      (\<exists>i n. k = UpdateItemQuantity i n \<and> i \<notin> item_id ` set (cart_items c)) \<and>
      err = ItemNotFound \<and> c' = c) \<and>
   (distinct (map item_id (cart_items c)) \<and> fresh_id k c \<longrightarrow>
      distinct (map item_id (cart_items (snd (call k c)))))"
proof (intro conjI impI)
  assume "itemId \<notin> item_id ` set (cart_items c)"
  then show "updateItemQuantity itemId q c = (Some ItemNotFound, c)"
    by (rule updateItemQuantity_unknown)
next
  assume a: "itemId \<in> item_id ` set (cart_items c) \<and> q \<le> 0"
  then have known: "itemId \<in> item_id ` set (cart_items c)" and q: "q \<le> 0" by simp_all
  note u = updateItemQuantity_known [OF known, of q]
  show "fst (updateItemQuantity itemId q c) = None" by (simp add: u)
  show items: "cart_items (snd (updateItemQuantity itemId q c)) =
        filter (\<lambda>i. item_id i \<noteq> itemId) (cart_items c)"
    using q by (simp add: u calculateTotals_fields pull_def)
  show "uniqueItems (snd (updateItemQuantity itemId q c)) < uniqueItems c"
    using pull_length_lt [OF known] by (simp add: uniqueItems_def items pull_def)
  assume "distinct (map item_id (cart_items c))"
  from pull_length_distinct [OF known this]
  show "uniqueItems (snd (updateItemQuantity itemId q c)) + 1 = uniqueItems c"
    by (simp add: uniqueItems_def items pull_def)
next
  assume a: "itemId \<in> item_id ` set (cart_items c) \<and> 0 < q"
  then have known: "itemId \<in> item_id ` set (cart_items c)" and q: "0 < q" by simp_all
  show "fst (updateItemQuantity itemId q c) = None"
    by (simp add: updateItemQuantity_known [OF known])
  show "\<exists>pre e post. cart_items c = pre @ e # post \<and> itemId \<notin> item_id ` set pre \<and>
         item_id e = itemId \<and>
         cart_items (snd (updateItemQuantity itemId q c)) =
           pre @ e\<lparr>item_quantity := min q (item_maxQuantity e),
                    item_total := min q (item_maxQuantity e) * item_price e\<rparr> # post"
    by (rule updateItemQuantity_set [OF known q])
next
  assume "fst (updateItemQuantity itemId q c) = None"
  then have "call (UpdateItemQuantity itemId q) c = (None, snd (updateItemQuantity itemId q c))"
    by (simp add: prod_eq_iff)
  then show "totals_ok (snd (updateItemQuantity itemId q c))" by (rule call_totals_ok)
next
  assume t: "call k c = (Some err, c')"
  from call_throws [OF t]
  show "\<exists>i n. k = UpdateItemQuantity i n \<and> i \<notin> item_id ` set (cart_items c)"
    and "err = ItemNotFound" and "c' = c" by simp_all
next
  assume "distinct (map item_id (cart_items c)) \<and> fresh_id k c"
  then show "distinct (map item_id (cart_items (snd (call k c))))"
    by (simp add: call_distinct_ids)
qed

lemma ink_fields:
  "product_id ink = 21" "product_name ink = ''ink''" "product_sku ink = None"
  "product_price ink = 7" "product_primaryImage ink = None"
  "product_maxOrderQuantity ink = None"
  by (simp_all add: ink_def)

lemma two_lines_items:
  "cart_items two_lines = [new_line 100 pen 2 None, new_line 101 ink 1 None]"
  by (simp add: two_lines_def calculateTotals_fields)

lemma new_line_fields:
  "item_id (new_line newId p q v) = newId"
  "item_product (new_line newId p q v) = product_id p"
  "item_quantity (new_line newId p q v) = q"
  "item_price (new_line newId p q v) = product_price p"
  "item_total (new_line newId p q v) = q * product_price p"
  "item_variant (new_line newId p q v) = cast_variant v"
  "item_maxQuantity (new_line newId p q v) = or_100 (product_maxOrderQuantity p)"
  by (simp_all add: new_line_def)

theorem updateItemQuantity_cases_witness:
  "updateItemQuantity 999 5 two_lines = (Some ItemNotFound, two_lines) \<and>
   fst (updateItemQuantity 100 0 two_lines) = None \<and>
   cart_items (snd (updateItemQuantity 100 0 two_lines)) = [new_line 101 ink 1 None] \<and>
   uniqueItems two_lines = 2 \<and>
   uniqueItems (snd (updateItemQuantity 100 0 two_lines)) + 1 = uniqueItems two_lines \<and>
   fst (updateItemQuantity 100 50 two_lines) = None \<and>
   (\<exists>pre e post. cart_items two_lines = pre @ e # post \<and> 100 \<notin> item_id ` set pre \<and>
      item_id e = 100 \<and>
      cart_items (snd (updateItemQuantity 100 50 two_lines)) =
        pre @ e\<lparr>item_quantity := min 50 (item_maxQuantity e),
                 item_total := min 50 (item_maxQuantity e) * item_price e\<rparr> # post) \<and>
   map item_quantity (cart_items (snd (updateItemQuantity 100 50 two_lines))) = [10, 1] \<and>
   map item_total (cart_items (snd (updateItemQuantity 100 50 two_lines))) = [30, 7] \<and>
   totals_ok (snd (updateItemQuantity 100 50 two_lines)) \<and>
   (\<exists>i n. UpdateItemQuantity 999 5 = UpdateItemQuantity i n \<and>
      i \<notin> item_id ` set (cart_items two_lines)) \<and>
   distinct (map item_id (cart_items two_lines)) \<and>
   fresh_id (AddItem 102 ink 1 (Some [(''name'', ''colour''), (''option'', ''red'')]))
     two_lines \<and>
   distinct (map item_id (cart_items (snd (call
     (AddItem 102 ink 1 (Some [(''name'', ''colour''), (''option'', ''red'')]))
     two_lines))))"
proof -
  have ids: "item_id ` set (cart_items two_lines) = {100, 101}"
    by (simp add: two_lines_items new_line_fields)
  have unknown: "999 \<notin> item_id ` set (cart_items two_lines)" by (simp add: ids)
  have known: "100 \<in> item_id ` set (cart_items two_lines)" by (simp add: ids)
  have dist: "distinct (map item_id (cart_items two_lines))"
    by (simp add: two_lines_items new_line_fields)
  have n: "uniqueItems two_lines = 2" by (simp add: uniqueItems_def two_lines_items)
  note miss = updateItemQuantity_cases [where itemId = 999 and q = 5 and c = two_lines
      and k = "UpdateItemQuantity 999 5" and err = ItemNotFound and c' = two_lines]
  from miss unknown have a: "updateItemQuantity 999 5 two_lines = (Some ItemNotFound, two_lines)"
    by blast
  then have "call (UpdateItemQuantity 999 5) two_lines = (Some ItemNotFound, two_lines)"
    by simp
  with miss have b: "\<exists>i n. UpdateItemQuantity 999 5 = UpdateItemQuantity i n \<and>
      i \<notin> item_id ` set (cart_items two_lines)"
    by blast
  note drop = updateItemQuantity_cases [where itemId = 100 and q = 0 and c = two_lines
      and k = Clear and err = ItemNotFound and c' = two_lines]
  from drop known dist have c1: "fst (updateItemQuantity 100 0 two_lines) = None"
    and c2: "cart_items (snd (updateItemQuantity 100 0 two_lines)) =
        filter (\<lambda>i. item_id i \<noteq> 100) (cart_items two_lines)"
    and c3: "uniqueItems (snd (updateItemQuantity 100 0 two_lines)) + 1 = uniqueItems two_lines"
    by simp_all
  from c2 have c2': "cart_items (snd (updateItemQuantity 100 0 two_lines)) = [new_line 101 ink 1 None]"
    by (simp add: two_lines_items new_line_fields)
  note clamp = updateItemQuantity_cases [where itemId = 100 and q = 50 and c = two_lines
      and k = Clear and err = ItemNotFound and c' = two_lines]
  from clamp known have d1: "fst (updateItemQuantity 100 50 two_lines) = None"
    and d2: "\<exists>pre e post. cart_items two_lines = pre @ e # post \<and> 100 \<notin> item_id ` set pre \<and>
      item_id e = 100 \<and>
      cart_items (snd (updateItemQuantity 100 50 two_lines)) =
        pre @ e\<lparr>item_quantity := min 50 (item_maxQuantity e),
                 item_total := min 50 (item_maxQuantity e) * item_price e\<rparr> # post"
    by simp_all
  from clamp d1 have d3: "totals_ok (snd (updateItemQuantity 100 50 two_lines))" by blast
  have ev: "cart_items (snd (updateItemQuantity 100 50 two_lines)) =
      [set_quantity 50 (new_line 100 pen 2 None), new_line 101 ink 1 None]"
    by (simp add: updateItemQuantity_known [OF known] calculateTotals_fields two_lines_items
        new_line_fields)
  have d4: "map item_quantity (cart_items (snd (updateItemQuantity 100 50 two_lines))) = [10, 1]"
    by (simp add: ev set_quantity_def new_line_fields pen_fields or_100_def)
  have d5: "map item_total (cart_items (snd (updateItemQuantity 100 50 two_lines))) = [30, 7]"
    by (simp add: ev set_quantity_def new_line_fields pen_fields ink_fields or_100_def)
  let ?red = "AddItem 102 ink 1 (Some [(''name'', ''colour''), (''option'', ''red'')])"
  have fr: "fresh_id ?red two_lines" by (simp add: fresh_id_def ids)
  note more = updateItemQuantity_cases [where itemId = 100 and q = 0 and c = two_lines
      and k = ?red and err = ItemNotFound and c' = two_lines]
  from more dist fr
  have e: "distinct (map item_id (cart_items (snd (call ?red two_lines))))" by blast
  from a b c1 c2' n c3 d1 d2 d3 d4 d5 dist fr e show ?thesis by blast
qed

text \<open>
  Claim C10. \<open>removeItem(itemId)\<close> has no throwing path: for every cart and every
  \<open>itemId\<close> it returns the cart without the lines of that \<open>_id\<close> and with the totals
  recomputed. When no line has the \<open>_id\<close> the lines are unchanged and the call
  succeeds all the same, where \<open>updateItemQuantity\<close> throws.
\<close>

theorem removeItem_total:
  "call (RemoveItem itemId) c = (None, removeItem itemId c) \<and>
   cart_items (removeItem itemId c) = filter (\<lambda>i. item_id i \<noteq> itemId) (cart_items c) \<and>
   itemId \<notin> item_id ` set (cart_items (removeItem itemId c)) \<and>
   totals_ok (removeItem itemId c) \<and>
   (itemId \<notin> item_id ` set (cart_items c) \<longrightarrow>
      cart_items (removeItem itemId c) = cart_items c \<and>
      fst (updateItemQuantity itemId q c) = Some ItemNotFound)"
proof (intro conjI impI)
  show "call (RemoveItem itemId) c = (None, removeItem itemId c)" by simp
  show "cart_items (removeItem itemId c) = filter (\<lambda>i. item_id i \<noteq> itemId) (cart_items c)"
    by (simp add: removeItem_def calculateTotals_fields pull_def)
  show "itemId \<notin> item_id ` set (cart_items (removeItem itemId c))"
    using pull_removes [of itemId "cart_items c"]
    by (simp add: removeItem_def calculateTotals_fields)
  show "totals_ok (removeItem itemId c)"
    by (simp add: removeItem_def totals_ok_calculateTotals)
next
  assume absent: "itemId \<notin> item_id ` set (cart_items c)"
  then show "cart_items (removeItem itemId c) = cart_items c"
    by (simp add: removeItem_def calculateTotals_fields pull_absent)
  from absent show "fst (updateItemQuantity itemId q c) = Some ItemNotFound"
    by (simp add: updateItemQuantity_unknown)
qed

theorem removeItem_total_witness:
  "cart_items (removeItem 999 two_lines) = cart_items two_lines \<and>
   call (RemoveItem 999) two_lines = (None, removeItem 999 two_lines) \<and>
   totals_ok (removeItem 999 two_lines) \<and>
   fst (updateItemQuantity 999 1 two_lines) = Some ItemNotFound \<and>
   cart_items (removeItem 100 two_lines) = [new_line 101 ink 1 None]"
proof -
  have unknown: "999 \<notin> item_id ` set (cart_items two_lines)"
    by (simp add: two_lines_items new_line_fields)
  note miss = removeItem_total [where itemId = 999 and c = two_lines and q = 1]
  note hit = removeItem_total [where itemId = 100 and c = two_lines and q = 1]
  from miss unknown have a: "cart_items (removeItem 999 two_lines) = cart_items two_lines"
    and b: "fst (updateItemQuantity 999 1 two_lines) = Some ItemNotFound" by blast+
  from miss have c: "call (RemoveItem 999) two_lines = (None, removeItem 999 two_lines)"
    and d: "totals_ok (removeItem 999 two_lines)" by blast+
  from hit have "cart_items (removeItem 100 two_lines) =
      filter (\<lambda>i. item_id i \<noteq> 100) (cart_items two_lines)" by blast
  then have e: "cart_items (removeItem 100 two_lines) = [new_line 101 ink 1 None]"
    by (simp add: two_lines_items new_line_fields)
  from a b c d e show ?thesis by blast
qed

section \<open>Cart: adding a line\<close>

















section \<open>Cart: merging a session cart\<close>







































lemma save_invalid: "\<not> valid_cart doc \<Longrightarrow> save now loaded doc store = (Inl ValidationError, store)"
  by (simp add: save_def)

























section \<open>Order: status and refund\<close>

text \<open>
  Claim C2. \<open>updateStatus(newStatus, note, updatedBy)\<close> stores \<open>newStatus\<close> in \<open>status\<close>
  whatever the current status is, with no check against the state machine, and appends
  exactly one entry \<open>{status: newStatus, timestamp, note, updatedBy}\<close> to
  \<open>statusHistory\<close>; nothing else of the order changes. The guards are separate
  virtuals that \<open>updateStatus\<close> does not consult: \<open>canBeCancelled\<close> holds exactly when
  the status is \<open>pending\<close>, \<open>confirmed\<close> or \<open>processing\<close>, and \<open>canBeRefunded\<close> exactly
  when \<open>paymentStatus\<close> is \<open>paid\<close> and the status is \<open>delivered\<close>. (The theorem is about
  the method; the schema's status-history hook, which runs at the next save, is a
  separate step.)
\<close>

theorem updateStatus_unconditional:
  "order_status (updateStatus now newStatus note updatedBy ord) = newStatus \<and>
   order_statusHistory (updateStatus now newStatus note updatedBy ord) =
     order_statusHistory ord @
       [\<lparr>hist_status = newStatus, hist_timestamp = now, hist_note = Some note,
         hist_updatedBy = updatedBy\<rparr>] \<and>
   length (order_statusHistory (updateStatus now newStatus note updatedBy ord)) =
     length (order_statusHistory ord) + 1 \<and>
   updateStatus now newStatus note updatedBy ord =
     ord\<lparr>order_status := newStatus,
         order_statusHistory := order_statusHistory (updateStatus now newStatus note updatedBy ord)\<rparr> \<and>
   (canBeCancelled ord \<longleftrightarrow>
      order_status ord = ''pending'' \<or> order_status ord = ''confirmed'' \<or>
      order_status ord = ''processing'') \<and>
   (canBeRefunded ord \<longleftrightarrow>
      order_paymentStatus ord = ''paid'' \<and> order_status ord = ''delivered'') \<and>
   (\<exists>old. \<not> canBeCancelled old \<and> \<not> canBeRefunded old \<and>
      order_status (updateStatus now ''cancelled'' note updatedBy old) = ''cancelled'' \<and>
      order_status (updateStatus now ''refunded'' note updatedBy old) = ''refunded'')"
proof -
  have upd: "order_status (updateStatus now newStatus note updatedBy x) = newStatus" for x newStatus
    by (simp add: updateStatus_def Let_def)
  have hist: "order_statusHistory (updateStatus now newStatus note updatedBy ord) =
     order_statusHistory ord @
       [\<lparr>hist_status = newStatus, hist_timestamp = now, hist_note = Some note,
         hist_updatedBy = updatedBy\<rparr>]"
    by (simp add: updateStatus_def Let_def)
  have rest: "updateStatus now newStatus note updatedBy ord =
     ord\<lparr>order_status := newStatus,
         order_statusHistory := order_statusHistory (updateStatus now newStatus note updatedBy ord)\<rparr>"
    by (simp add: updateStatus_def Let_def)
  have cc: "canBeCancelled ord \<longleftrightarrow>
      order_status ord = ''pending'' \<or> order_status ord = ''confirmed'' \<or>
      order_status ord = ''processing''"
    by (simp add: canBeCancelled_def)
  have cr: "canBeRefunded ord \<longleftrightarrow>
      order_paymentStatus ord = ''paid'' \<and> order_status ord = ''delivered''"
    by (simp add: canBeRefunded_def)
  have "\<not> canBeCancelled shipped_order \<and> \<not> canBeRefunded shipped_order"
    by (simp add: canBeCancelled_def canBeRefunded_def shipped_order_def)
  with upd have ex: "\<exists>old. \<not> canBeCancelled old \<and> \<not> canBeRefunded old \<and>
      order_status (updateStatus now ''cancelled'' note updatedBy old) = ''cancelled'' \<and>
      order_status (updateStatus now ''refunded'' note updatedBy old) = ''refunded''"
    by blast
  from upd hist rest cc cr ex show ?thesis by simp
qed

text \<open>
  Claim C3. \<open>processRefund(amount, reason, processedBy)\<close> stores the refund
  \<open>{amount, reason, processedAt, processedBy}\<close>, sets \<open>paymentStatus\<close> to \<open>refunded\<close>
  when \<open>amount >= total\<close> and to \<open>partially_refunded\<close> when \<open>amount < total\<close>, and sets
  \<open>status\<close> to \<open>refunded\<close> whatever the status was; the history and the total are not
  touched.
\<close>

theorem processRefund_effect:
  "order_refund (processRefund now amount reason processedBy ord) =
     Some \<lparr>refund_amount = amount, refund_reason = reason, refund_processedAt = now,
           refund_processedBy = processedBy\<rparr> \<and>
   (order_total ord \<le> amount \<longrightarrow>
      order_paymentStatus (processRefund now amount reason processedBy ord) = ''refunded'') \<and>
   (amount < order_total ord \<longrightarrow>
      order_paymentStatus (processRefund now amount reason processedBy ord)
        = ''partially_refunded'') \<and>
   order_status (processRefund now amount reason processedBy ord) = ''refunded'' \<and>
   order_total (processRefund now amount reason processedBy ord) = order_total ord \<and>
   order_statusHistory (processRefund now amount reason processedBy ord)
     = order_statusHistory ord"
  by (simp add: processRefund_def Let_def)

theorem processRefund_effect_witness:
  "order_total shipped_order = 100 \<and> order_status shipped_order = ''shipped'' \<and>
   order_paymentStatus (processRefund 5 100 ''damaged'' 9 shipped_order) = ''refunded'' \<and>
   order_paymentStatus (processRefund 5 50 ''damaged'' 9 shipped_order) = ''partially_refunded'' \<and>
   order_status (processRefund 5 50 ''damaged'' 9 shipped_order) = ''refunded'' \<and>
   order_status (processRefund 5 100 ''damaged'' 9 shipped_order) = ''refunded''"
proof -
  have t: "order_total shipped_order = 100" and st: "order_status shipped_order = ''shipped''"
    by (simp_all add: shipped_order_def)
  from processRefund_effect [of 5 100 "''damaged''" 9 shipped_order] t
  have full: "order_paymentStatus (processRefund 5 100 ''damaged'' 9 shipped_order) = ''refunded''"
    and full_st: "order_status (processRefund 5 100 ''damaged'' 9 shipped_order) = ''refunded''"
    by simp_all
  from processRefund_effect [of 5 50 "''damaged''" 9 shipped_order] t
  have part: "order_paymentStatus (processRefund 5 50 ''damaged'' 9 shipped_order)
      = ''partially_refunded''"
    and part_st: "order_status (processRefund 5 50 ''damaged'' 9 shipped_order) = ''refunded''"
    by simp_all
  from t st full part part_st full_st show ?thesis by simp
qed

section \<open>Order: the order number\<close>

lemma digit_char_mod: "digit_char (n mod 10) = digit_char n"
  by (simp add: digit_char_def)

lemma digit_char_cong: "a mod 10 = b mod 10 \<Longrightarrow> digit_char a = digit_char b"
  by (simp add: digit_char_def)

lemma digits_small: "n < 10 \<Longrightarrow> digits n = [digit_char n]"
  by (subst digits.simps) simp

lemma digits_large: "10 \<le> n \<Longrightarrow> digits n = digits (n div 10) @ [digit_char n]"
  by (subst digits.simps) (simp add: digit_char_mod)

lemma digits_last: "\<exists>ys. digits n = ys @ [digit_char n]"
proof (cases "n < 10")
  case True
  then have "digits n = [] @ [digit_char n]" by (simp add: digits_small)
  then show ?thesis by blast
next
  case False
  then have "digits n = digits (n div 10) @ [digit_char n]" by (simp add: digits_large)
  then show ?thesis by blast
qed

lemma digits_last_two:
  assumes "10 \<le> n"
  shows "\<exists>ys. digits n = ys @ [digit_char (n div 10), digit_char n]"
proof -
  from digits_last [of "n div 10"] obtain ys where "digits (n div 10) = ys @ [digit_char (n div 10)]" ..
  with assms have "digits n = ys @ [digit_char (n div 10), digit_char n]"
    by (simp add: digits_large)
  then show ?thesis ..
qed

lemma toString_nat: "toString (int n) = digits n"
  by (simp add: toString_def)

lemma slice_last_two: "slice_last 2 (ys @ [a, b]) = [a, b]"
  by (simp add: slice_last_def)

lemma mod_100_div_10: "(n::nat) mod 100 div 10 = n div 10 mod 10"
proof -
  have "n mod (10 * 10) = 10 * (n div 10 mod 10) + n mod 10" by (rule mod_mult2_eq)
  then have "n mod 100 div 10 = (10 * (n div 10 mod 10) + n mod 10) div 10" by simp
  also have "\<dots> = n div 10 mod 10" by simp
  finally show ?thesis .
qed

lemma div_10_div:
  "(n::nat) div 10 div 10 = n div 100" "(n::nat) div 10 div 100 = n div 1000"
proof -
  have "n div 10 div 10 = n div (10 * 10)" by (rule div_mult2_eq [symmetric])
  then show "n div 10 div 10 = n div 100" by simp
  have "n div 10 div 100 = n div (10 * 100)" by (rule div_mult2_eq [symmetric])
  then show "n div 10 div 100 = n div 1000" by simp
qed

lemma year_two_digits:
  assumes "10 \<le> y"
  shows "slice_last 2 (toString y) = two_digits (nat y mod 100)"
proof -
  from assms have y: "y = int (nat y)" and big: "10 \<le> nat y" by simp_all
  from digits_last_two [OF big] obtain ys where
    d: "digits (nat y) = ys @ [digit_char (nat y div 10), digit_char (nat y)]" ..
  have "toString y = digits (nat y)" using toString_nat [of "nat y"] y by simp
  with d have "slice_last 2 (toString y) = [digit_char (nat y div 10), digit_char (nat y)]"
    by (simp add: slice_last_two)
  moreover have "digit_char (nat y mod 100 div 10) = digit_char (nat y div 10)"
    by (simp only: mod_100_div_10 digit_char_mod)
  moreover have "digit_char (nat y mod 100) = digit_char (nat y)"
    by (rule digit_char_cong) (simp add: mod_mod_cancel)
  ultimately show ?thesis by (simp add: two_digits_def)
qed

lemma digit_char_0: "digit_char 0 = CHR ''0''"
  by (simp add: digit_char_def)

lemma digits_two: "10 \<le> n \<Longrightarrow> n < 100 \<Longrightarrow> digits n = [digit_char (n div 10), digit_char n]"
  by (simp add: digits_large digits_small)

lemma digits_three:
  assumes "100 \<le> n" "n < 1000"
  shows "digits n = [digit_char (n div 100), digit_char (n div 10), digit_char n]"
proof -
  from assms have "10 \<le> n div 10" "n div 10 < 100" by linarith+
  from digits_two [OF this]
  have "digits (n div 10) = [digit_char (n div 10 div 10), digit_char (n div 10)]" .
  moreover have "n div 10 div 10 = n div 100" by (rule div_10_div)
  moreover from assms have "10 \<le> n" by simp
  ultimately show ?thesis by (simp only: digits_large append_Cons append_Nil)
qed

lemma digits_four:
  assumes "1000 \<le> n" "n < 10000"
  shows "digits n =
    [digit_char (n div 1000), digit_char (n div 100), digit_char (n div 10), digit_char n]"
proof -
  from assms have "100 \<le> n div 10" "n div 10 < 1000" by linarith+
  from digits_three [OF this]
  have "digits (n div 10) =
    [digit_char (n div 10 div 100), digit_char (n div 10 div 10), digit_char (n div 10)]" .
  moreover have "n div 10 div 100 = n div 1000" "n div 10 div 10 = n div 100"
    by (rule div_10_div)+
  moreover from assms have "10 \<le> n" by simp
  ultimately show ?thesis by (simp only: digits_large append_Cons append_Nil)
qed

lemma pad_two: "n < 100 \<Longrightarrow> padStart 2 CHR ''0'' (digits n) = two_digits n"
  by (cases "n < 10")
     (simp_all add: padStart_def two_digits_def digits_small digits_two digit_char_0)

lemma pad_four: "n < 10000 \<Longrightarrow> padStart 4 CHR ''0'' (digits n) = four_digits n"
proof -
  assume n: "n < 10000"
  have rep: "replicate 3 c = [c, c, c]" "replicate 2 c = [c, c]" "replicate 1 c = [c]"
    for c :: char
    by (simp_all add: numeral_3_eq_3 numeral_2_eq_2)
  consider "n < 10" | "10 \<le> n" "n < 100" | "100 \<le> n" "n < 1000" | "1000 \<le> n" by linarith
  then show ?thesis
  proof cases
    case 1
    then show ?thesis
      by (simp add: padStart_def four_digits_def digits_small digit_char_0 rep)
  next
    case 2
    then show ?thesis
      by (simp add: padStart_def four_digits_def digits_two digit_char_0 rep)
  next
    case 3
    then show ?thesis
      by (simp add: padStart_def four_digits_def digits_three digit_char_0 rep)
  next
    case 4
    with n show ?thesis
      by (simp add: padStart_def four_digits_def digits_four)
  qed
qed

lemma digits_length: "10 ^ k \<le> n \<Longrightarrow> k < length (digits n)"
proof (induction k arbitrary: n)
  case 0
  from digits_last [of n] obtain ys where "digits n = ys @ [digit_char n]" ..
  then show ?case by simp
next
  case (Suc k)
  have "(1::nat) \<le> 10 ^ k" by simp
  then have "(10::nat) \<le> 10 ^ Suc k" by simp
  from this Suc.prems have big: "10 \<le> n" by (rule le_trans)
  from Suc.prems have "10 ^ k \<le> n div 10" by (simp add: less_eq_div_iff_mult_less_eq)
  from Suc.IH [OF this] big show ?case by (simp add: digits_large)
qed

lemma pad_four_long: "10000 \<le> n \<Longrightarrow> padStart 4 CHR ''0'' (digits n) = four_digits n"
proof -
  assume n: "10000 \<le> n"
  then have "(10::nat) ^ 4 \<le> n" by simp
  from digits_length [OF this] n show ?thesis by (simp add: padStart_def four_digits_def)
qed

lemma orderNumber_of_spec:
  assumes "10 \<le> getFullYear date" "getMonth date < 12" "getDate date \<le> 31"
  shows "orderNumber_of date count =
    spec_orderNumber (nat (getFullYear date)) (getMonth date + 1) (getDate date) count"
proof -
  have y: "slice_last 2 (toString (getFullYear date)) = two_digits (nat (getFullYear date) mod 100)"
    by (rule year_two_digits [OF assms(1)])
  have "toString (int (getMonth date) + 1) = digits (getMonth date + 1)"
    using toString_nat [of "getMonth date + 1"] by (simp add: add.commute)
  with assms(2) have m: "padStart 2 CHR ''0'' (toString (int (getMonth date) + 1))
      = two_digits (getMonth date + 1)"
    by (simp add: pad_two)
  from assms(3) have d: "padStart 2 CHR ''0'' (toString (int (getDate date)))
      = two_digits (getDate date)"
    by (simp add: toString_nat pad_two)
  have "toString (int count + 1) = digits (count + 1)"
    using toString_nat [of "count + 1"] by (simp add: add.commute)
  moreover have "padStart 4 CHR ''0'' (digits (count + 1)) = four_digits (count + 1)"
    by (cases "count + 1 < 10000") (simp_all add: pad_four pad_four_long)
  ultimately have n: "padStart 4 CHR ''0'' (toString (int count + 1)) = four_digits (count + 1)"
    by simp
  show ?thesis
    unfolding orderNumber_of_def Let_def spec_orderNumber_def y m d n ..
qed

text \<open>
  Claim C8. For a new order saved on a date of year at least 10 (every date the clock
  gives), the hook stores as \<open>orderNumber\<close> the string \<open>ORD\<close>, the last two digits of the
  year, the calendar month and the day of the month in two digits each, and \<open>n + 1\<close>
  padded with zeros to four digits (more digits from 10000 on), where \<open>n\<close> is the number
  of stored orders with \<open>createdAt\<close> at or after the local midnight of that day; nothing
  else of the order changes, and an order that is not new is left as it is. Two
  creations on the same day that read the same count get the same \<open>orderNumber\<close>.
\<close>

theorem orderNumber_format:
  "(10 \<le> getFullYear date \<and> getMonth date < 12 \<and> getDate date \<le> 31 \<longrightarrow>
      orderNumber_hook date store True ord =
        ord\<lparr>order_orderNumber :=
              Some (spec_orderNumber (nat (getFullYear date)) (getMonth date + 1) (getDate date)
                      (length (filter (\<lambda>x. midnight date \<le> order_createdAt x) store)))\<rparr>) \<and>
   (getFullYear date' = getFullYear date \<and> getMonth date' = getMonth date \<and>
    getDate date' = getDate date \<and>
    countDocuments_since store' (midnight date') = countDocuments_since store (midnight date) \<longrightarrow>
      order_orderNumber (orderNumber_hook date' store' True ord')
        = order_orderNumber (orderNumber_hook date store True ord)) \<and>
   orderNumber_hook date store False ord = ord"
proof (intro conjI impI)
  assume "10 \<le> getFullYear date \<and> getMonth date < 12 \<and> getDate date \<le> 31"
  then have "orderNumber_of date (countDocuments_since store (midnight date)) =
      spec_orderNumber (nat (getFullYear date)) (getMonth date + 1) (getDate date)
        (countDocuments_since store (midnight date))"
    by (simp add: orderNumber_of_spec)
  then show "orderNumber_hook date store True ord =
        ord\<lparr>order_orderNumber :=
              Some (spec_orderNumber (nat (getFullYear date)) (getMonth date + 1) (getDate date)
                      (length (filter (\<lambda>x. midnight date \<le> order_createdAt x) store)))\<rparr>"
    by (simp add: orderNumber_hook_def countDocuments_since_def)
next
  assume "getFullYear date' = getFullYear date \<and> getMonth date' = getMonth date \<and>
    getDate date' = getDate date \<and>
    countDocuments_since store' (midnight date') = countDocuments_since store (midnight date)"
  then show "order_orderNumber (orderNumber_hook date' store' True ord')
        = order_orderNumber (orderNumber_hook date store True ord)"
    by (simp add: orderNumber_hook_def orderNumber_of_def)
next
  show "orderNumber_hook date store False ord = ord"
    by (simp add: orderNumber_hook_def)
qed

theorem orderNumber_format_witness:
  "order_orderNumber (orderNumber_hook today orders_so_far True shipped_order)
     = Some ''ORD2611020002'' \<and>
   order_orderNumber
     (orderNumber_hook today orders_so_far True (shipped_order\<lparr>order_user := 8\<rparr>))
     = order_orderNumber (orderNumber_hook today orders_so_far True shipped_order)"
proof -
  have d: "10 \<le> getFullYear today \<and> getMonth today < 12 \<and> getDate today \<le> 31"
    by (simp add: today_def)
  have n: "length (filter (\<lambda>x. midnight today \<le> order_createdAt x) orders_so_far) = 1"
    by (simp add: today_def orders_so_far_def)
  have str: "spec_orderNumber (nat (getFullYear today)) (getMonth today + 1) (getDate today) 1
      = ''ORD2611020002''"
    by (simp add: today_def spec_orderNumber_def two_digits_def four_digits_def digit_char_def)
  note inst = orderNumber_format [where date = today and date' = today
      and store = orders_so_far and store' = orders_so_far
      and ord = shipped_order and ord' = "shipped_order\<lparr>order_user := 8\<rparr>"]
  from inst d have "orderNumber_hook today orders_so_far True shipped_order =
      shipped_order\<lparr>order_orderNumber :=
        Some (spec_orderNumber (nat (getFullYear today)) (getMonth today + 1) (getDate today)
          (length (filter (\<lambda>x. midnight today \<le> order_createdAt x) orders_so_far)))\<rparr>"
    by blast
  then have "orderNumber_hook today orders_so_far True shipped_order =
      shipped_order\<lparr>order_orderNumber := Some ''ORD2611020002''\<rparr>"
    unfolding n str .
  then have a: "order_orderNumber (orderNumber_hook today orders_so_far True shipped_order)
     = Some ''ORD2611020002''"
    by simp
  from inst have b: "order_orderNumber
     (orderNumber_hook today orders_so_far True (shipped_order\<lparr>order_user := 8\<rparr>))
     = order_orderNumber (orderNumber_hook today orders_so_far True shipped_order)"
    by blast
  from a b show ?thesis by simp
qed

section \<open>Review: helpful votes\<close>

lemma indexOf_ge: "- 1 \<le> indexOf xs x"
  by (induction xs) (simp_all add: Let_def)

lemma indexOf_absent: "indexOf xs x = - 1 \<longleftrightarrow> x \<notin> set xs"
proof (induction xs)
  case Nil
  then show ?case by simp
next
  case (Cons y ys)
  from indexOf_ge [of ys x] have "indexOf ys x + 1 \<noteq> - 1" by simp
  with Cons show ?case by (auto simp: Let_def)
qed

lemma array_includes_iff: "array_includes xs x \<longleftrightarrow> x \<in> set xs"
  by (simp add: array_includes_def indexOf_absent)

lemma indexOf_found: "x \<in> set xs \<Longrightarrow> - 1 < indexOf xs x"
  using indexOf_ge [of xs x] indexOf_absent [of xs x] by linarith

lemma indexOf_missing: "x \<notin> set xs \<Longrightarrow> \<not> - 1 < indexOf xs x"
  by (simp add: indexOf_absent [symmetric])

lemma splice1_indexOf: "x \<in> set xs \<Longrightarrow> splice1 (indexOf xs x) xs = remove1 x xs"
proof (induction xs)
  case Nil
  then show ?case by simp
next
  case (Cons y ys)
  show ?case
  proof (cases "y = x")
    case True
    then show ?thesis by (simp add: splice1_def)
  next
    case False
    with Cons.prems have in_ys: "x \<in> set ys" by simp
    from indexOf_found [OF in_ys] have pos: "0 \<le> indexOf ys x" by simp
    then have n: "nat (indexOf ys x + 1) = Suc (nat (indexOf ys x))" by simp
    from in_ys have "indexOf ys x \<noteq> - 1" by (simp add: indexOf_absent)
    with False have "indexOf (y # ys) x = indexOf ys x + 1" by (simp add: Let_def)
    then have "splice1 (indexOf (y # ys) x) (y # ys) = y # splice1 (indexOf ys x) ys"
      by (simp add: splice1_def n)
    with Cons.IH [OF in_ys] False show ?thesis by simp
  qed
qed

lemma markHelpful_new:
  "u \<notin> set (helpful_users (review_helpful r)) \<Longrightarrow>
   review_helpful (markHelpful u r) =
     \<lparr>helpful_count = helpful_count (review_helpful r) + 1,
      helpful_users = helpful_users (review_helpful r) @ [u]\<rparr>"
  by (simp add: markHelpful_def array_includes_iff)

lemma markHelpful_old:
  "u \<in> set (helpful_users (review_helpful r)) \<Longrightarrow> markHelpful u r = r"
  by (simp add: markHelpful_def array_includes_iff)

lemma unmarkHelpful_old:
  "u \<in> set (helpful_users (review_helpful r)) \<Longrightarrow>
   review_helpful (unmarkHelpful u r) =
     \<lparr>helpful_count = max 0 (helpful_count (review_helpful r) - 1),
      helpful_users = remove1 u (helpful_users (review_helpful r))\<rparr>"
  by (simp add: unmarkHelpful_def Let_def indexOf_found splice1_indexOf)

lemma unmarkHelpful_new:
  "u \<notin> set (helpful_users (review_helpful r)) \<Longrightarrow> unmarkHelpful u r = r"
  by (simp add: unmarkHelpful_def Let_def indexOf_missing)

text \<open>
  Claim C9. \<open>markHelpful(u)\<close> appends \<open>u\<close> to \<open>helpful.users\<close> and adds 1 to
  \<open>helpful.count\<close> when \<open>u\<close> is not among the users, and changes nothing when it is;
  \<open>unmarkHelpful(u)\<close> removes the first occurrence of \<open>u\<close> and sets the count to
  \<open>max(0, count - 1)\<close> when \<open>u\<close> is among the users, and changes nothing when it is
  not. So a count that is not negative stays so, \<open>count = length(users)\<close> is preserved
  by both, and so is the absence of duplicates among the users, with which \<open>u\<close> is
  gone after \<open>unmarkHelpful(u)\<close>.
\<close>

theorem helpful_votes:
  "(u \<notin> set (helpful_users (review_helpful r)) \<longrightarrow>
      helpful_users (review_helpful (markHelpful u r)) = helpful_users (review_helpful r) @ [u] \<and>
      helpful_count (review_helpful (markHelpful u r)) = helpful_count (review_helpful r) + 1 \<and>
      unmarkHelpful u r = r) \<and>
   (u \<in> set (helpful_users (review_helpful r)) \<longrightarrow>
      markHelpful u r = r \<and>
      helpful_users (review_helpful (unmarkHelpful u r))
        = remove1 u (helpful_users (review_helpful r)) \<and>
      helpful_count (review_helpful (unmarkHelpful u r))
        = max 0 (helpful_count (review_helpful r) - 1)) \<and>
   (0 \<le> helpful_count (review_helpful r) \<longrightarrow>
      0 \<le> helpful_count (review_helpful (markHelpful u r)) \<and>
      0 \<le> helpful_count (review_helpful (unmarkHelpful u r))) \<and>
   (helpful_count (review_helpful r) = int (length (helpful_users (review_helpful r))) \<longrightarrow>
      helpful_count (review_helpful (markHelpful u r))
        = int (length (helpful_users (review_helpful (markHelpful u r)))) \<and>
      helpful_count (review_helpful (unmarkHelpful u r))
        = int (length (helpful_users (review_helpful (unmarkHelpful u r))))) \<and>
   (distinct (helpful_users (review_helpful r)) \<longrightarrow>
      distinct (helpful_users (review_helpful (markHelpful u r))) \<and>
      distinct (helpful_users (review_helpful (unmarkHelpful u r))) \<and>
      u \<notin> set (helpful_users (review_helpful (unmarkHelpful u r))))"
proof (cases "u \<in> set (helpful_users (review_helpful r))")
  case True
  note m = markHelpful_old [OF True] and um = unmarkHelpful_old [OF True]
  from True have len: "length (remove1 u (helpful_users (review_helpful r))) =
      length (helpful_users (review_helpful r)) - 1"
    by (simp add: length_remove1)
  from True have pos: "0 < length (helpful_users (review_helpful r))"
    by (cases "helpful_users (review_helpful r)") simp_all
  have keep: "helpful_count (review_helpful r) = int (length (helpful_users (review_helpful r))) \<longrightarrow>
      max 0 (helpful_count (review_helpful r) - 1)
        = int (length (remove1 u (helpful_users (review_helpful r))))"
  proof
    assume h: "helpful_count (review_helpful r) = int (length (helpful_users (review_helpful r)))"
    from pos have "int (length (helpful_users (review_helpful r)) - 1)
        = int (length (helpful_users (review_helpful r))) - 1"
      by linarith
    with h pos show "max 0 (helpful_count (review_helpful r) - 1)
        = int (length (remove1 u (helpful_users (review_helpful r))))"
      unfolding len by linarith
  qed
  have gone: "distinct (helpful_users (review_helpful r)) \<longrightarrow>
      u \<notin> set (remove1 u (helpful_users (review_helpful r)))"
    by simp
  from True keep gone show ?thesis by (simp add: m um)
next
  case False
  note m = markHelpful_new [OF False] and um = unmarkHelpful_new [OF False]
  from False show ?thesis by (simp add: m um)
qed

theorem helpful_votes_witness:
  "review_helpful (markHelpful 9 liked_review)
     = \<lparr>helpful_count = 3, helpful_users = [7, 8, 9]\<rparr> \<and>
   markHelpful 7 liked_review = liked_review \<and>
   review_helpful (unmarkHelpful 7 liked_review)
     = \<lparr>helpful_count = 1, helpful_users = [8]\<rparr> \<and>
   unmarkHelpful 9 liked_review = liked_review \<and>
   0 \<le> helpful_count (review_helpful (unmarkHelpful 7 liked_review)) \<and>
   helpful_count (review_helpful (unmarkHelpful 7 liked_review))
     = int (length (helpful_users (review_helpful (unmarkHelpful 7 liked_review)))) \<and>
   distinct (helpful_users (review_helpful (markHelpful 9 liked_review))) \<and>
   7 \<notin> set (helpful_users (review_helpful (unmarkHelpful 7 liked_review)))"
proof -
  have users: "helpful_users (review_helpful liked_review) = [7, 8]"
    and count: "helpful_count (review_helpful liked_review) = 2"
    by (simp_all add: liked_review_def)
  have absent: "9 \<notin> set (helpful_users (review_helpful liked_review))"
    and present: "7 \<in> set (helpful_users (review_helpful liked_review))"
    and nonneg: "0 \<le> helpful_count (review_helpful liked_review)"
    and agree: "helpful_count (review_helpful liked_review)
        = int (length (helpful_users (review_helpful liked_review)))"
    and dist: "distinct (helpful_users (review_helpful liked_review))"
    by (simp_all add: users count)
  note new = helpful_votes [of 9 liked_review] and old = helpful_votes [of 7 liked_review]
  from new absent have a1: "helpful_users (review_helpful (markHelpful 9 liked_review)) = [7, 8, 9]"
    and a2: "helpful_count (review_helpful (markHelpful 9 liked_review)) = 3"
    and a3: "unmarkHelpful 9 liked_review = liked_review"
    by (simp_all add: users count)
  from a1 a2 have a: "review_helpful (markHelpful 9 liked_review)
     = \<lparr>helpful_count = 3, helpful_users = [7, 8, 9]\<rparr>"
    by (cases "review_helpful (markHelpful 9 liked_review)") simp
  from old present have b1: "markHelpful 7 liked_review = liked_review"
    and b2: "helpful_users (review_helpful (unmarkHelpful 7 liked_review)) = [8]"
    and b3: "helpful_count (review_helpful (unmarkHelpful 7 liked_review)) = 1"
    by (simp_all add: users count)
  from b2 b3 have b: "review_helpful (unmarkHelpful 7 liked_review)
     = \<lparr>helpful_count = 1, helpful_users = [8]\<rparr>"
    by (cases "review_helpful (unmarkHelpful 7 liked_review)") simp
  from old nonneg have c: "0 \<le> helpful_count (review_helpful (unmarkHelpful 7 liked_review))"
    by blast
  from old agree have d: "helpful_count (review_helpful (unmarkHelpful 7 liked_review))
     = int (length (helpful_users (review_helpful (unmarkHelpful 7 liked_review))))"
    by blast
  from new dist have e: "distinct (helpful_users (review_helpful (markHelpful 9 liked_review)))"
    by blast
  from old dist have f: "7 \<notin> set (helpful_users (review_helpful (unmarkHelpful 7 liked_review)))"
    by blast
  from a b1 b a3 c d e f show ?thesis by blast
qed

section \<open>Category: the parent change\<close>

lemma category_pre_save_path:
  "cat_level (category_pre_save slugify findById countActive flags this)
     = cat_level (parent_step findById flags this)"
  "cat_ancestors (category_pre_save slugify findById countActive flags this)
     = cat_ancestors (parent_step findById flags this)"
  "cat_id (category_pre_save slugify findById countActive flags this) = cat_id this"
  "cat_parent (category_pre_save slugify findById countActive flags this) = cat_parent this"
  by (simp_all add: category_pre_save_def count_step_def parent_step_def slug_step_def
      split: option.splits)

lemma parent_step_found:
  "modified_parent flags \<Longrightarrow> cat_parent this = Some parentId \<Longrightarrow>
   findById parentId = Some parent \<Longrightarrow>
   cat_level (parent_step findById flags this) = cat_level parent + 1 \<and>
   cat_ancestors (parent_step findById flags this) = cat_ancestors parent @ [summary parent]"
  by (simp add: parent_step_def)

lemma parent_step_cleared:
  "modified_parent flags \<Longrightarrow> cat_parent this = None \<Longrightarrow>
   cat_level (parent_step findById flags this) = 0 \<and>
   cat_ancestors (parent_step findById flags this) = []"
  by (simp add: parent_step_def)

lemma parent_step_depth:
  assumes "level_is_depth this"
    and "\<forall>parentId parent. cat_parent this = Some parentId \<and> findById parentId = Some parent
          \<longrightarrow> level_is_depth parent"
  shows "level_is_depth (parent_step findById flags this)"
  using assms by (auto simp: parent_step_def level_is_depth_def split: option.splits)

lemma level_is_depth_pre_save:
  "level_is_depth (category_pre_save slugify findById countActive flags this)
     = level_is_depth (parent_step findById flags this)"
  by (simp add: level_is_depth_def category_pre_save_path)

text \<open>
  Claim C7. A Category save with \<open>parent\<close> modified, against the collection \<open>store\<close>.
  When the new parent is set and found, the saved document has
  \<open>level = parent.level + 1\<close> and \<open>ancestors\<close> = the parent's ancestors followed by the
  parent's \<open>{_id, name, slug}\<close>; when the parent is cleared it has \<open>level = 0\<close> and no
  ancestors. So \<open>level = length(ancestors)\<close> holds of the saved document whenever it
  holds of the parent found (and, when the parent is not found and nothing is
  recomputed, of the document itself): the save keeps it as an invariant of the
  collection. Only the saved document is written: every other document, descendants
  included, is stored as it was.
\<close>

theorem category_parent_change:
  "modified_parent flags \<longrightarrow>
     (cat_parent this = Some parentId \<and> store parentId = Some parent \<longrightarrow>
        cat_level (category_pre_save slugify store countActive flags this) = cat_level parent + 1 \<and>
        cat_ancestors (category_pre_save slugify store countActive flags this) =
          cat_ancestors parent @
            [\<lparr>anc_id = cat_id parent, anc_name = cat_name parent, anc_slug = cat_slug parent\<rparr>] \<and>
        (level_is_depth parent \<longrightarrow>
           level_is_depth (category_pre_save slugify store countActive flags this))) \<and>
     (cat_parent this = None \<longrightarrow>
        cat_level (category_pre_save slugify store countActive flags this) = 0 \<and>
        cat_ancestors (category_pre_save slugify store countActive flags this) = [] \<and>
        level_is_depth (category_pre_save slugify store countActive flags this)) \<and>
     (cat_parent this = Some parentId \<and> store parentId = None \<and> level_is_depth this \<longrightarrow>
        level_is_depth (category_pre_save slugify store countActive flags this)) \<and>
     ((\<forall>i c. store i = Some c \<longrightarrow> level_is_depth c) \<and> level_is_depth this \<longrightarrow>
        (\<forall>i c. category_save slugify countActive flags this store i = Some c \<longrightarrow>
           level_is_depth c)) \<and>
     category_save slugify countActive flags this store (cat_id this) =
       Some (category_pre_save slugify store countActive flags this) \<and>
     (\<forall>i. i \<noteq> cat_id this \<longrightarrow>
        category_save slugify countActive flags this store i = store i)"
proof (intro impI conjI allI)
  assume m: "modified_parent flags"
  {
    assume "cat_parent this = Some parentId \<and> store parentId = Some parent"
    then have p: "cat_parent this = Some parentId" and f: "store parentId = Some parent" by simp_all
    note found = parent_step_found [where findById = store, OF m p f]
    from found show "cat_level (category_pre_save slugify store countActive flags this)
        = cat_level parent + 1"
      by (simp add: category_pre_save_path)
    from found show "cat_ancestors (category_pre_save slugify store countActive flags this) =
          cat_ancestors parent @
            [\<lparr>anc_id = cat_id parent, anc_name = cat_name parent, anc_slug = cat_slug parent\<rparr>]"
      by (simp add: category_pre_save_path summary_def)
    assume "level_is_depth parent"
    with found show "level_is_depth (category_pre_save slugify store countActive flags this)"
      by (simp add: level_is_depth_def category_pre_save_path)
  }
  {
    assume "cat_parent this = None"
    note cleared = parent_step_cleared [where findById = store, OF m this]
    from cleared show "cat_level (category_pre_save slugify store countActive flags this) = 0"
      by (simp add: category_pre_save_path)
    from cleared show "cat_ancestors (category_pre_save slugify store countActive flags this) = []"
      by (simp add: category_pre_save_path)
    from cleared show "level_is_depth (category_pre_save slugify store countActive flags this)"
      by (simp add: level_is_depth_def category_pre_save_path)
  }
  {
    assume "cat_parent this = Some parentId \<and> store parentId = None \<and> level_is_depth this"
    then show "level_is_depth (category_pre_save slugify store countActive flags this)"
      by (simp add: level_is_depth_def category_pre_save_path parent_step_def)
  }
  {
    fix i c
    assume inv: "(\<forall>i c. store i = Some c \<longrightarrow> level_is_depth c) \<and> level_is_depth this"
      and got: "category_save slugify countActive flags this store i = Some c"
    from inv have "level_is_depth (parent_step store flags this)"
      by (intro parent_step_depth) blast+
    then have saved: "level_is_depth (category_pre_save slugify store countActive flags this)"
      by (simp add: level_is_depth_pre_save)
    show "level_is_depth c"
    proof (cases "i = cat_id this")
      case True
      with got saved show ?thesis by (simp add: category_save_def)
    next
      case False
      with got have "store i = Some c" by (simp add: category_save_def)
      with inv show ?thesis by blast
    qed
  }
  show "category_save slugify countActive flags this store (cat_id this) =
       Some (category_pre_save slugify store countActive flags this)"
    by (simp add: category_save_def)
  fix i assume "i \<noteq> cat_id this"
  then show "category_save slugify countActive flags this store i = store i"
    by (simp add: category_save_def)
qed

lemma categories_at:
  "categories 1 = Some audio" "categories 2 = Some speakers" "categories 3 = Some soundbars"
  "categories 99 = None"
  by (simp_all add: categories_def)

lemma sample_depth:
  "level_is_depth audio" "level_is_depth speakers" "level_is_depth soundbars"
  by (simp_all add: level_is_depth_def audio_def speakers_def soundbars_def)

lemma categories_depth: "\<forall>i c. categories i = Some c \<longrightarrow> level_is_depth c"
proof (intro allI impI)
  fix i c assume "categories i = Some c"
  then have "c = audio \<or> c = speakers \<or> c = soundbars"
    by (simp add: categories_def split: if_splits)
  then show "level_is_depth c" using sample_depth by blast
qed

theorem category_parent_change_witness:
  "cat_level (category_pre_save (\<lambda>n. n) categories (\<lambda>i. 0) parent_changed
       (soundbars\<lparr>cat_parent := Some 1\<rparr>)) = 1 \<and>
   cat_ancestors (category_pre_save (\<lambda>n. n) categories (\<lambda>i. 0) parent_changed
       (soundbars\<lparr>cat_parent := Some 1\<rparr>))
     = [\<lparr>anc_id = 1, anc_name = ''Audio'', anc_slug = ''audio''\<rparr>] \<and>
   level_is_depth (category_pre_save (\<lambda>n. n) categories (\<lambda>i. 0) parent_changed
       (soundbars\<lparr>cat_parent := Some 1\<rparr>)) \<and>
   cat_level (category_pre_save (\<lambda>n. n) categories (\<lambda>i. 0) parent_changed
       (speakers\<lparr>cat_parent := None\<rparr>)) = 0 \<and>
   cat_ancestors (category_pre_save (\<lambda>n. n) categories (\<lambda>i. 0) parent_changed
       (speakers\<lparr>cat_parent := None\<rparr>)) = [] \<and>
   level_is_depth (category_pre_save (\<lambda>n. n) categories (\<lambda>i. 0) parent_changed
       (speakers\<lparr>cat_parent := Some 99\<rparr>)) \<and>
   category_save (\<lambda>n. n) (\<lambda>i. 0) parent_changed (speakers\<lparr>cat_parent := None\<rparr>) categories 3
     = Some soundbars \<and>
   level_is_depth soundbars \<and>
   cat_ancestors soundbars =
     [\<lparr>anc_id = 1, anc_name = ''Audio'', anc_slug = ''audio''\<rparr>,
      \<lparr>anc_id = 2, anc_name = ''Speakers'', anc_slug = ''speakers''\<rparr>]"
proof -
  have m: "modified_parent parent_changed" by (simp add: parent_changed_def)
  note ld = sample_depth
  have p1: "cat_parent (soundbars\<lparr>cat_parent := Some 1\<rparr>) = Some 1"
    and p2: "cat_parent (speakers\<lparr>cat_parent := None\<rparr>) = None"
    and p3: "cat_parent (speakers\<lparr>cat_parent := Some 99\<rparr>) = Some 99"
    by simp_all
  note move = category_parent_change [where flags = parent_changed
      and this = "soundbars\<lparr>cat_parent := Some 1\<rparr>" and parentId = 1 and parent = audio
      and store = categories and slugify = "\<lambda>n. n" and countActive = "\<lambda>i. 0"]
  from move m p1 categories_at(1) ld(1)
  have a1: "cat_level (category_pre_save (\<lambda>n. n) categories (\<lambda>i. 0) parent_changed
       (soundbars\<lparr>cat_parent := Some 1\<rparr>)) = cat_level audio + 1"
    and a2: "cat_ancestors (category_pre_save (\<lambda>n. n) categories (\<lambda>i. 0) parent_changed
       (soundbars\<lparr>cat_parent := Some 1\<rparr>)) =
        cat_ancestors audio @
          [\<lparr>anc_id = cat_id audio, anc_name = cat_name audio, anc_slug = cat_slug audio\<rparr>]"
    and a3: "level_is_depth (category_pre_save (\<lambda>n. n) categories (\<lambda>i. 0) parent_changed
       (soundbars\<lparr>cat_parent := Some 1\<rparr>))"
    by blast+
  note clear = category_parent_change [where flags = parent_changed
      and this = "speakers\<lparr>cat_parent := None\<rparr>" and parentId = 1 and parent = audio
      and store = categories and slugify = "\<lambda>n. n" and countActive = "\<lambda>i. 0"]
  from clear m p2
  have b1: "cat_level (category_pre_save (\<lambda>n. n) categories (\<lambda>i. 0) parent_changed
       (speakers\<lparr>cat_parent := None\<rparr>)) = 0"
    and b2: "cat_ancestors (category_pre_save (\<lambda>n. n) categories (\<lambda>i. 0) parent_changed
       (speakers\<lparr>cat_parent := None\<rparr>)) = []"
    by blast+
  have three: "3 \<noteq> cat_id (speakers\<lparr>cat_parent := None\<rparr>)" by (simp add: speakers_def)
  from clear m three
  have "category_save (\<lambda>n. n) (\<lambda>i. 0) parent_changed (speakers\<lparr>cat_parent := None\<rparr>) categories 3
     = categories 3"
    by blast
  then have b3: "category_save (\<lambda>n. n) (\<lambda>i. 0) parent_changed
      (speakers\<lparr>cat_parent := None\<rparr>) categories 3 = Some soundbars"
    by (simp only: categories_at)
  have "level_is_depth (speakers\<lparr>cat_parent := None\<rparr>)"
    using ld(2) by (simp add: level_is_depth_def)
  with clear m categories_depth
  have "\<forall>i c. category_save (\<lambda>n. n) (\<lambda>i. 0) parent_changed
      (speakers\<lparr>cat_parent := None\<rparr>) categories i = Some c \<longrightarrow> level_is_depth c"
    by blast
  with b3 have b4: "level_is_depth soundbars" by blast
  note dangling = category_parent_change [where flags = parent_changed
      and this = "speakers\<lparr>cat_parent := Some 99\<rparr>" and parentId = 99 and parent = audio
      and store = categories and slugify = "\<lambda>n. n" and countActive = "\<lambda>i. 0"]
  have "level_is_depth (speakers\<lparr>cat_parent := Some 99\<rparr>)"
    using ld(2) by (simp add: level_is_depth_def)
  with dangling m p3 categories_at(4)
  have c1: "level_is_depth (category_pre_save (\<lambda>n. n) categories (\<lambda>i. 0) parent_changed
       (speakers\<lparr>cat_parent := Some 99\<rparr>))"
    by blast
  have stale: "cat_ancestors soundbars =
     [\<lparr>anc_id = 1, anc_name = ''Audio'', anc_slug = ''audio''\<rparr>,
      \<lparr>anc_id = 2, anc_name = ''Speakers'', anc_slug = ''speakers''\<rparr>]"
    by (simp add: soundbars_def summary_def audio_def speakers_def)
  from a1 have a1': "cat_level (category_pre_save (\<lambda>n. n) categories (\<lambda>i. 0) parent_changed
       (soundbars\<lparr>cat_parent := Some 1\<rparr>)) = 1"
    by (simp add: audio_def)
  from a2 have a2': "cat_ancestors (category_pre_save (\<lambda>n. n) categories (\<lambda>i. 0) parent_changed
       (soundbars\<lparr>cat_parent := Some 1\<rparr>))
     = [\<lparr>anc_id = 1, anc_name = ''Audio'', anc_slug = ''audio''\<rparr>]"
    by (simp add: audio_def)
  from a1' a2' a3 b1 b2 c1 b3 b4 stale show ?thesis by blast
qed

end
